theory Spec2Isabelle
  imports Complex_Main
begin

section \<open>The tile grid of the ant colony game\<close>

text \<open>
  The model follows the multi-colony version of \<^verbatim>\<open>ant-colony-game/game.js\<close> (classes
  \<^verbatim>\<open>Colony\<close>, \<^verbatim>\<open>Game\<close>, \<^verbatim>\<open>Ant\<close>, \<^verbatim>\<open>WorkerAnt\<close>, \<^verbatim>\<open>Queen\<close>).
  JavaScript numbers are modelled as reals: every number is finite and arithmetic is
  exact. The value \<^verbatim>\<open>undefined\<close> of a property that was never assigned is \<open>None\<close>.
  Particles, screen shake, console output and drawing are left out: no function modelled
  here reads them.
\<close>

datatype tile_type = Air | Dirt

record tile =
  type :: tile_type
  dug :: bool
  hardness :: "real option"
  digProgress :: "real option"

text \<open>
  \<^verbatim>\<open>Game.tiles\<close> is an array of rows, indexed \<^verbatim>\<open>tiles[y][x]\<close>; \<^verbatim>\<open>worldWidth\<close> and
  \<^verbatim>\<open>worldHeight\<close> are separate fields, and every bounds check reads them, not the arrays.
\<close>

record grid =
  worldWidth :: int
  worldHeight :: int
  tiles :: "tile list list"

text \<open>Reading a property of \<^verbatim>\<open>undefined\<close> throws a \<^verbatim>\<open>TypeError\<close>.\<close>

datatype error = TypeError

definition isValidTile :: "grid \<Rightarrow> int \<Rightarrow> int \<Rightarrow> bool" where
  "isValidTile g tx ty \<longleftrightarrow> tx \<ge> 0 \<and> tx < worldWidth g \<and> ty \<ge> 0 \<and> ty < worldHeight g"

text \<open>
  \<^verbatim>\<open>this.tiles[ty][tx]\<close> for indices that are not negative: a missing row is
  \<^verbatim>\<open>undefined\<close> and indexing it throws; a missing cell of an existing row is
  \<^verbatim>\<open>undefined\<close>.
\<close>

definition tileAt :: "grid \<Rightarrow> int \<Rightarrow> int \<Rightarrow> error + tile option" where
  "tileAt g tx ty =
     (if nat ty < length (tiles g)
      then (let row = tiles g ! nat ty
            in if nat tx < length row then Inr (Some (row ! nat tx)) else Inr None)
      else Inl TypeError)"

definition getTile :: "grid \<Rightarrow> real \<Rightarrow> real \<Rightarrow> error + tile option" where
  "getTile g x y =
     (let tx = \<lfloor>x\<rfloor>; ty = \<lfloor>y\<rfloor>
      in if isValidTile g tx ty then tileAt g tx ty else Inr None)"

definition canMove :: "grid \<Rightarrow> real \<Rightarrow> real \<Rightarrow> error + bool" where
  "canMove g x y =
     (case getTile g x y of
        Inl e \<Rightarrow> Inl e
      | Inr None \<Rightarrow> Inr False
      | Inr (Some tile) \<Rightarrow> Inr (dug tile \<or> type tile = Air))"

text \<open>Writing the fields of the tile object stored at \<^verbatim>\<open>tiles[ty][tx]\<close>.\<close>

definition setTile :: "grid \<Rightarrow> int \<Rightarrow> int \<Rightarrow> tile \<Rightarrow> grid" where
  "setTile g tx ty t = g\<lparr>tiles := (tiles g)[nat ty := (tiles g ! nat ty)[nat tx := t]]\<rparr>"

text \<open>\<^verbatim>\<open>tile.digProgress || 0\<close>: \<^verbatim>\<open>undefined\<close> and \<open>0\<close> both give \<open>0\<close>.\<close>

definition progressOf :: "tile \<Rightarrow> real" where
  "progressOf t = (case digProgress t of None \<Rightarrow> 0 | Some v \<Rightarrow> v)"

text \<open>\<^verbatim>\<open>tile.digProgress >= tile.hardness\<close>: no comparison with \<^verbatim>\<open>undefined\<close> holds.\<close>

definition reached :: "real \<Rightarrow> real option \<Rightarrow> bool" where
  "reached p h = (case h of None \<Rightarrow> False | Some v \<Rightarrow> p \<ge> v)"

text \<open>
  The numbers of JavaScript are the doubles of IEEE 754, and \<^verbatim>\<open>a + b\<close> is the exact sum
  rounded to the nearest double, ties to the even mantissa. \<^verbatim>\<open>digProgress\<close> is a sum that
  is kept and added to again, call after call, so that its rounding decides which call
  reaches the hardness: this sum is modelled with its rounding. A sum of magnitude
  \<open>2 ^ 1024\<close> or more, which JavaScript makes \<^verbatim>\<open>Infinity\<close>, is outside the model.

  \<open>nearestEven\<close> is the integer nearest to a real, the even one of two that are equally near.
\<close>

definition nearestEven :: "real \<Rightarrow> int" where
  "nearestEven x =
     (let n = \<lfloor>x\<rfloor>; r = x - of_int n
      in if r < 1/2 then n else if 1/2 < r then n + 1 else if even n then n else n + 1)"

text \<open>
  The binary exponent of a number \<open>x \<ge> 0\<close>: the \<open>e\<close> with \<open>2 ^ e \<le> x < 2 ^ (e + 1)\<close>, but not below
  \<open>-1022\<close>, the exponent that zero and the subnormal numbers share.
\<close>

function exponentUp :: "real \<Rightarrow> int" where
  "exponentUp x = (if x < 2 then 0 else exponentUp (x / 2) + 1)"
  by pat_completeness auto

termination
proof (relation "measure (\<lambda>x. nat \<lfloor>x\<rfloor>)")
  show "wf (measure (\<lambda>x. nat \<lfloor>x::real\<rfloor>))" by simp
next
  fix x :: real
  assume large: "\<not> x < 2"
  then have "x / 2 \<le> x - 1" by simp
  then have "\<lfloor>x / 2\<rfloor> \<le> \<lfloor>x - 1\<rfloor>" by (rule floor_mono)
  moreover have "2 \<le> \<lfloor>x\<rfloor>" using large by (simp add: le_floor_iff)
  ultimately show "(x / 2, x) \<in> measure (\<lambda>x. nat \<lfloor>x\<rfloor>)" by simp
qed

declare exponentUp.simps [simp del]

fun exponentDown :: "nat \<Rightarrow> real \<Rightarrow> int" where
  "exponentDown 0 x = 0"
| "exponentDown (Suc n) x = (if 1 \<le> x then 0 else exponentDown n (2 * x) - 1)"

definition exponent :: "real \<Rightarrow> int" where
  "exponent x = (if 1 \<le> x then exponentUp x else exponentDown 1022 x)"

text \<open>The distance between neighbouring doubles at \<open>x\<close>: the mantissa has 53 bits.\<close>

definition ulp :: "real \<Rightarrow> real" where
  "ulp x = 2 powi (exponent x - 52)"

definition roundMagnitude :: "real \<Rightarrow> real" where
  "roundMagnitude x = of_int (nearestEven (x / ulp x)) * ulp x"

definition toDouble :: "real \<Rightarrow> real" where
  "toDouble x = (if x < 0 then - roundMagnitude (- x) else roundMagnitude x)"

definition addDouble :: "real \<Rightarrow> real \<Rightarrow> real" where
  "addDouble a b = toDouble (a + b)"

definition isDouble :: "real \<Rightarrow> bool" where
  "isDouble x \<longleftrightarrow> toDouble x = x"

definition digTile :: "grid \<Rightarrow> real \<Rightarrow> real \<Rightarrow> real \<Rightarrow> error + (bool \<times> grid)" where
  "digTile g x y digPower =
     (let tx = \<lfloor>x\<rfloor>; ty = \<lfloor>y\<rfloor>
      in if isValidTile g tx ty then
           (case tileAt g tx ty of
              Inl e \<Rightarrow> Inl e
            | Inr None \<Rightarrow> Inl TypeError
            | Inr (Some tile) \<Rightarrow>
                if \<not> dug tile \<and> type tile = Dirt then
                  (let p = addDouble (progressOf tile) digPower;
                       tile1 = tile\<lparr>digProgress := Some p\<rparr>
                   in if reached p (hardness tile)
                      then Inr (True, setTile g tx ty (tile1\<lparr>dug := True, type := Air\<rparr>))
                      else Inr (False, setTile g tx ty tile1))
                else Inr (False, g))
         else Inr (False, g))"

text \<open>Repeated calls of \<^verbatim>\<open>digTile\<close> at one point, one call for each power of the list.\<close>

fun digRepeat :: "grid \<Rightarrow> real \<Rightarrow> real \<Rightarrow> real list \<Rightarrow> error + (bool list \<times> grid)" where
  "digRepeat g x y [] = Inr ([], g)"
| "digRepeat g x y (p # ps) =
     (case digTile g x y p of
        Inl e \<Rightarrow> Inl e
      | Inr (b, g1) \<Rightarrow>
          (case digRepeat g1 x y ps of
             Inl e \<Rightarrow> Inl e
           | Inr (bs, g2) \<Rightarrow> Inr (b # bs, g2)))"

text \<open>
  The grid as \<^verbatim>\<open>generateWorld\<close> builds it: \<^verbatim>\<open>worldHeight\<close> rows of \<^verbatim>\<open>worldWidth\<close>
  tiles each.
\<close>

definition grid_ok :: "grid \<Rightarrow> bool" where
  "grid_ok g \<longleftrightarrow>
     length (tiles g) = nat (worldHeight g) \<and>
     list_all (\<lambda>row. length row = nat (worldWidth g)) (tiles g)"

text \<open>The tile object stored at \<^verbatim>\<open>tiles[ty][tx]\<close>, for coordinates inside the world.\<close>

definition cell :: "grid \<Rightarrow> int \<Rightarrow> int \<Rightarrow> tile" where
  "cell g tx ty = tiles g ! nat ty ! nat tx"

text \<open>The tile that one effective \<^verbatim>\<open>digTile\<close> call with power \<open>p\<close> leaves behind.\<close>

definition dugTile :: "tile \<Rightarrow> real \<Rightarrow> tile" where
  "dugTile t p =
     (if reached (addDouble (progressOf t) p) (hardness t)
      then t\<lparr>digProgress := Some (addDouble (progressOf t) p), dug := True, type := Air\<rparr>
      else t\<lparr>digProgress := Some (addDouble (progressOf t) p)\<rparr>)"


text \<open>
  The progress that the first \<open>k + 1\<close> calls add up to, starting from \<open>p0\<close>: each call adds
  its power to what the calls before it have left, with the rounding of that addition.
\<close>

definition accumulated :: "real \<Rightarrow> real list \<Rightarrow> nat \<Rightarrow> real" where
  "accumulated p0 ps k = foldl addDouble p0 (take (Suc k) ps)"


text \<open>A world of one dirt tile, half dug, and the same world after a dig of power \<open>-1/4\<close>.\<close>

definition dirt1 :: grid where
  "dirt1 = \<lparr>worldWidth = 1, worldHeight = 1,
            tiles = [[\<lparr>type = Dirt, dug = False, hardness = Some (3/4), digProgress = Some (1/2)\<rparr>]]\<rparr>"

definition dirt1_after :: grid where
  "dirt1_after = \<lparr>worldWidth = 1, worldHeight = 1,
            tiles = [[\<lparr>type = Dirt, dug = False, hardness = Some (3/4), digProgress = Some (1/4)\<rparr>]]\<rparr>"

text \<open>
  The doubles nearest to \<open>0.1\<close> and to \<open>0.8\<close>, which are what the literals \<^verbatim>\<open>0.1\<close> and \<^verbatim>\<open>0.8\<close>
  denote, and a world of one untouched dirt tile of hardness \<^verbatim>\<open>0.8\<close>.
\<close>

definition tenth :: real where
  "tenth = 3602879701896397 / 2 ^ 55"

definition eightTenths :: real where
  "eightTenths = 3602879701896397 / 2 ^ 52"

definition dirt8 :: grid where
  "dirt8 = \<lparr>worldWidth = 1, worldHeight = 1,
            tiles = [[\<lparr>type = Dirt, dug = False, hardness = Some eightTenths, digProgress = None\<rparr>]]\<rparr>"

text \<open>A world of two dirt tiles side by side.\<close>

definition dirt2 :: grid where
  "dirt2 = \<lparr>worldWidth = 2, worldHeight = 1,
            tiles = [[\<lparr>type = Dirt, dug = False, hardness = Some (3/4), digProgress = None\<rparr>,
                      \<lparr>type = Dirt, dug = False, hardness = Some (3/4), digProgress = None\<rparr>]]\<rparr>"

text \<open>A loop whose body may throw: the first error ends it.\<close>

fun foldE :: "('a \<Rightarrow> 's \<Rightarrow> error + 's) \<Rightarrow> 'a list \<Rightarrow> 's \<Rightarrow> error + 's" where
  "foldE f [] s = Inr s"
| "foldE f (x # xs) s = (case f x s of Inl e \<Rightarrow> Inl e | Inr s' \<Rightarrow> foldE f xs s')"

text \<open>
  The first loop of \<^verbatim>\<open>generateWorld\<close>: rows \<open>0..4\<close> are sky, the rows below are dirt whose
  hardness grows with \<^verbatim>\<open>depth = y / worldHeight\<close>.
\<close>

definition initTile :: "int \<Rightarrow> int \<Rightarrow> tile" where
  "initTile h y =
     (let depth = real_of_int y / real_of_int h
      in if y < 5 then \<lparr>type = Air, dug = True, hardness = None, digProgress = None\<rparr>
         else \<lparr>type = Dirt, dug = False, hardness = Some (0.5 + depth * 0.5),
               digProgress = None\<rparr>)"

definition initWorld :: "int \<Rightarrow> int \<Rightarrow> grid" where
  "initWorld w h =
     \<lparr>worldWidth = w, worldHeight = h,
      tiles = map (\<lambda>y. map (\<lambda>x. initTile h (int y)) [0..<nat w]) [0..<nat h]\<rparr>"

text \<open>\<^verbatim>\<open>this.tiles[ty][tx].dug = true; this.tiles[ty][tx].type = 'air';\<close>\<close>

definition carve :: "grid \<Rightarrow> int \<Rightarrow> int \<Rightarrow> error + grid" where
  "carve g tx ty =
     (case tileAt g tx ty of
        Inl e \<Rightarrow> Inl e
      | Inr None \<Rightarrow> Inl TypeError
      | Inr (Some t) \<Rightarrow> Inr (setTile g tx ty (t\<lparr>dug := True, type := Air\<rparr>)))"

text \<open>The disk that \<^verbatim>\<open>carveTunnel\<close> carves around the point \<open>(x, y)\<close>.\<close>

definition carveDisk :: "int \<Rightarrow> int \<Rightarrow> int \<Rightarrow> grid \<Rightarrow> error + grid" where
  "carveDisk x y width g =
     foldE (\<lambda>oy. foldE (\<lambda>ox g1.
         let distFromCenter = sqrt (real_of_int (ox * ox + oy * oy))
         in if distFromCenter \<le> real_of_int width then
              (let tx = x + ox; ty = y + oy
               in if isValidTile g1 tx ty \<and> ty \<ge> 10 then carve g1 tx ty else Inr g1)
            else Inr g1) [- width..width]) [- width..width] g"

text \<open>
  \<^verbatim>\<open>carveTunnel(x1, y1, x2, y2, width)\<close>. When both ends coincide \<^verbatim>\<open>steps\<close> is \<open>0\<close> and
  \<^verbatim>\<open>t = 0 / 0\<close> is not a number: the point is not a valid tile and nothing is carved.
\<close>

definition carveTunnel :: "grid \<Rightarrow> real \<Rightarrow> real \<Rightarrow> real \<Rightarrow> real \<Rightarrow> int \<Rightarrow> error + grid" where
  "carveTunnel g x1 y1 x2 y2 width =
     (let dx = x2 - x1; dy = y2 - y1;
          dist = sqrt (dx * dx + dy * dy);
          steps = \<lceil>dist\<rceil>
      in if steps = 0 then Inr g
         else foldE (\<lambda>i.
                let t = real_of_int i / real_of_int steps;
                    x = \<lfloor>x1 + dx * t\<rfloor>;
                    y = \<lfloor>y1 + dy * t\<rfloor>
                in carveDisk x y width) [0..steps] g)"

text \<open>
  \<^verbatim>\<open>generateCaveSystems\<close> places caves, tunnels and shafts at random. It writes tiles in two
  ways only: through \<^verbatim>\<open>carveTunnel\<close>, and in \<^verbatim>\<open>generateCave\<close> through the assignment
  guarded by \<^verbatim>\<open>isValidTile(worldX, worldY) && worldY >= 10\<close>. Its random choices are an
  input of the model: the list of the carvings that it carries out, in order.
\<close>

datatype carving = Tunnel real real real real int | CaveCell int int

fun applyCarving :: "carving \<Rightarrow> grid \<Rightarrow> error + grid" where
  "applyCarving (Tunnel x1 y1 x2 y2 width) g = carveTunnel g x1 y1 x2 y2 width"
| "applyCarving (CaveCell worldX worldY) g =
     (if isValidTile g worldX worldY \<and> worldY \<ge> 10 then carve g worldX worldY else Inr g)"

text \<open>The starting chamber of \<^verbatim>\<open>generateWorld\<close>: 4 rows from row 10, 7 columns around the middle.\<close>

definition startChamber :: "grid \<Rightarrow> error + grid" where
  "startChamber g =
     (let startX = \<lfloor>real_of_int (worldWidth g) / 2\<rfloor>; startY = 10
      in foldE (\<lambda>y. foldE (\<lambda>x g1. if isValidTile g1 x y then carve g1 x y else Inr g1)
                  [startX - 3..startX + 3]) [startY..startY + 3] g)"

text \<open>
  The tiles that \<^verbatim>\<open>generateWorld\<close> leaves behind; placing food and colonies afterwards
  reads the tiles and does not write them.
\<close>

definition generateWorld :: "int \<Rightarrow> int \<Rightarrow> carving list \<Rightarrow> error + grid" where
  "generateWorld w h caves =
     (case foldE applyCarving caves (initWorld w h) of
        Inl e \<Rightarrow> Inl e
      | Inr g \<Rightarrow> startChamber g)"

text \<open>A sequence of \<^verbatim>\<open>digTile\<close> calls, each with its point and its power.\<close>

definition digAll :: "(real \<times> real \<times> real) list \<Rightarrow> grid \<Rightarrow> error + grid" where
  "digAll = foldE (\<lambda>(x, y, p) g.
      case digTile g x y p of Inl e \<Rightarrow> Inl e | Inr (b, g') \<Rightarrow> Inr g')"

text \<open>Every dug tile is air.\<close>

definition dugIsAir :: "grid \<Rightarrow> bool" where
  "dugIsAir g \<longleftrightarrow> list_all (list_all (\<lambda>t. dug t \<longrightarrow> type t = Air)) (tiles g)"

text \<open>The two invariants of the grid together.\<close>

definition sound :: "grid \<Rightarrow> bool" where
  "sound g \<longleftrightarrow> grid_ok g \<and> dugIsAir g"

text \<open>
  \<^verbatim>\<open>class FoodSource\<close>: position, amount and the amount it started with.
\<close>

record foodSource =
  food_x :: real
  food_y :: real
  amount :: real
  maxAmount :: real

definition newFoodSource :: "real \<Rightarrow> real \<Rightarrow> real \<Rightarrow> foodSource" where
  "newFoodSource x y a = \<lparr>food_x = x, food_y = y, amount = a, maxAmount = a\<rparr>"

text \<open>
  \<^verbatim>\<open>class Ant\<close>. \<^verbatim>\<open>Ant.takeDamage\<close> reads \<^verbatim>\<open>this.carryingFood\<close> and \<^verbatim>\<open>this.foodAmount\<close>,
  which the constructor of \<^verbatim>\<open>WorkerAnt\<close> sets; a queen has neither property, and the test
  in \<^verbatim>\<open>takeDamage\<close> takes \<^verbatim>\<open>undefined\<close> for false: a queen is modelled with
  \<open>carryingFood = False\<close>.
\<close>

record ant =
  ant_x :: real
  ant_y :: real
  isPlayer :: bool
  speed :: real
  health :: real
  maxHealth :: real
  alive :: bool
  carryingFood :: bool
  foodAmount :: real

text \<open>
  \<^verbatim>\<open>takeDamage(amount, game = null)\<close>. The only part of \<^verbatim>\<open>game\<close> that it touches is
  \<^verbatim>\<open>game.foodSources\<close>, which stands for \<^verbatim>\<open>game\<close> here; \<open>None\<close> is \<^verbatim>\<open>null\<close>.
\<close>

definition takeDamage ::
  "real \<Rightarrow> foodSource list option \<Rightarrow> 'a ant_scheme \<Rightarrow> 'a ant_scheme \<times> foodSource list option"
where
  "takeDamage dmg game a =
     (let a1 = a\<lparr>health := health a - dmg\<rparr>
      in if health a1 \<le> 0 then
           (let a2 = a1\<lparr>health := 0, alive := False\<rparr>
            in (a2, if carryingFood a2 \<and> foodAmount a2 > 0
                    then (case game of
                            None \<Rightarrow> None
                          | Some fs \<Rightarrow> Some (fs @ [newFoodSource (ant_x a2) (ant_y a2) (foodAmount a2)]))
                    else game))
         else (a1, game))"




text \<open>\<^verbatim>\<open>WorkerAnt.state\<close>: one of the strings idle, seeking, carrying, fighting.\<close>

datatype antState = Idle | Seeking | Carrying | Fighting

text \<open>
  \<^verbatim>\<open>class WorkerAnt extends Ant\<close>. \<^verbatim>\<open>targetFood\<close> refers to a \<^verbatim>\<open>FoodSource\<close> object; the
  model names it by its position in \<^verbatim>\<open>game.foodSources\<close>. \<^verbatim>\<open>colony\<close>, which \<^verbatim>\<open>addWorker\<close>
  sets when it pushes the worker, is the colony whose worker list holds the worker.
  \<^verbatim>\<open>wanderX\<close> and \<^verbatim>\<open>wanderY\<close> are not set by the constructor: they are \<^verbatim>\<open>undefined\<close> until
  the ant first wanders.
\<close>

record workerAnt = ant +
  targetFood :: "nat option"
  state :: antState
  digCooldown :: real
  attackCooldown :: real
  stateTimer :: real
  path :: "(real \<times> real) list option"
  pathIndex :: nat
  pathRecalcTimer :: real
  wanderX :: "real option"
  wanderY :: "real option"


text \<open>
  \<^verbatim>\<open>class Queen extends Ant\<close>. \<^verbatim>\<open>Queen.update\<close> resets a \<^verbatim>\<open>spawnTimer\<close> that is not a number
  or undefined: that value is \<open>None\<close>.
\<close>

record queen = ant +
  spawnTimer :: "real option"
  spawnCooldown :: real
  foodPerWorker :: real


text \<open>
  \<^verbatim>\<open>class EnemyAnt extends Ant\<close>, the members of \<^verbatim>\<open>game.enemies\<close>, as far as
  \<^verbatim>\<open>WorkerAnt.checkCombat\<close> reads them.
\<close>

record enemyAnt = ant +
  enemyAttackCooldown :: real

text \<open>\<^verbatim>\<open>class Colony\<close>: the queen and the workers are owned by the colony.\<close>

record colony =
  factionId :: nat
  colonyIsPlayer :: bool
  queen :: "queen option"
  workers :: "workerAnt list"
  food :: real

text \<open>The ants and the food of \<^verbatim>\<open>class Game\<close>; its tiles are the \<open>grid\<close>.\<close>

record game =
  colonies :: "colony list"
  enemies :: "enemyAnt list"
  foodSources :: "foodSource list"

text \<open>A worker is named by the position of its colony and its position among the workers.\<close>

definition workerAt :: "game \<Rightarrow> nat \<Rightarrow> nat \<Rightarrow> workerAnt option" where
  "workerAt g ci wi =
     (if ci < length (colonies g) \<and> wi < length (workers (colonies g ! ci))
      then Some (workers (colonies g ! ci) ! wi) else None)"

definition setWorker :: "game \<Rightarrow> nat \<Rightarrow> nat \<Rightarrow> workerAnt \<Rightarrow> game" where
  "setWorker g ci wi w =
     g\<lparr>colonies := (colonies g)[ci := (colonies g ! ci)\<lparr>workers := (workers (colonies g ! ci))[wi := w]\<rparr>]\<rparr>"

definition distance :: "real \<Rightarrow> real \<Rightarrow> real \<Rightarrow> real \<Rightarrow> real" where
  "distance x1 y1 x2 y2 = (let dx = x2 - x1; dy = y2 - y1 in sqrt (dx * dx + dy * dy))"

text \<open>
  The pickup of \<^verbatim>\<open>WorkerAnt.updateAI\<close>, for an ant that carries no food and has a target:
  the statements after \<^verbatim>\<open>moveTowards\<close>. A target that is no longer in the list has been
  emptied, and nothing is taken from it.
\<close>

definition aiPickup :: "game \<Rightarrow> nat \<Rightarrow> nat \<Rightarrow> game" where
  "aiPickup g ci wi =
     (case workerAt g ci wi of
        None \<Rightarrow> g
      | Some w \<Rightarrow>
          if carryingFood w then g
          else (case targetFood w of
                  None \<Rightarrow> g
                | Some fi \<Rightarrow>
                    if fi < length (foodSources g) then
                      (let target = foodSources g ! fi;
                           dist = distance (ant_x w) (ant_y w) (food_x target) (food_y target)
                       in if dist < 1 \<and> amount target > 0 then
                            (let taken = min 5 (amount target);
                                 g1 = g\<lparr>foodSources :=
                                         (foodSources g)[fi := target\<lparr>amount := amount target - taken\<rparr>]\<rparr>
                             in setWorker g1 ci wi
                                  (w\<lparr>foodAmount := taken, carryingFood := True, state := Carrying\<rparr>))
                          else g)
                    else g))"

text \<open>
  The delivery of \<^verbatim>\<open>WorkerAnt.updateAI\<close>, for an ant that carries food: the second
  \<^verbatim>\<open>if (this.colony && this.colony.queen)\<close> block of the carrying branch.
\<close>

definition aiDeliver :: "game \<Rightarrow> nat \<Rightarrow> nat \<Rightarrow> game" where
  "aiDeliver g ci wi =
     (case workerAt g ci wi of
        None \<Rightarrow> g
      | Some w \<Rightarrow>
          if carryingFood w then
            (case queen (colonies g ! ci) of
               None \<Rightarrow> g
             | Some q \<Rightarrow>
                 (let dist = distance (ant_x w) (ant_y w) (ant_x q) (ant_y q)
                  in if dist < 2.5 then
                       (let c = colonies g ! ci;
                            g1 = g\<lparr>colonies := (colonies g)[ci := c\<lparr>food := food c + foodAmount w\<rparr>]\<rparr>
                        in setWorker g1 ci wi
                             (w\<lparr>foodAmount := 0, carryingFood := False, targetFood := None,
                                state := Idle, path := None\<rparr>))
                     else g))
          else g)"



text \<open>
  The pickup of \<^verbatim>\<open>WorkerAnt.updatePlayer\<close>: the loop takes from the first source of the
  list that is nearer than 1.5 and not empty, then stops.
\<close>

fun playerTake :: "workerAnt \<Rightarrow> foodSource list \<Rightarrow> (real \<times> foodSource list) option" where
  "playerTake w [] = None"
| "playerTake w (f # fs) =
     (let dist = distance (ant_x w) (ant_y w) (food_x f) (food_y f)
      in if dist < 1.5 \<and> amount f > 0 then
           (let taken = min 15 (amount f) in Some (taken, f\<lparr>amount := amount f - taken\<rparr> # fs))
         else (case playerTake w fs of
                 None \<Rightarrow> None
               | Some (taken, fs') \<Rightarrow> Some (taken, f # fs')))"

definition playerPickup :: "game \<Rightarrow> nat \<Rightarrow> nat \<Rightarrow> game" where
  "playerPickup g ci wi =
     (case workerAt g ci wi of
        None \<Rightarrow> g
      | Some w \<Rightarrow>
          if \<not> carryingFood w then
            (case playerTake w (foodSources g) of
               None \<Rightarrow> g
             | Some (taken, fs') \<Rightarrow>
                 setWorker (g\<lparr>foodSources := fs'\<rparr>) ci wi
                   (w\<lparr>foodAmount := taken, carryingFood := True\<rparr>))
          else g)"

text \<open>The delivery of \<^verbatim>\<open>WorkerAnt.updatePlayer\<close>.\<close>

definition playerDeliver :: "game \<Rightarrow> nat \<Rightarrow> nat \<Rightarrow> game" where
  "playerDeliver g ci wi =
     (case workerAt g ci wi of
        None \<Rightarrow> g
      | Some w \<Rightarrow>
          if carryingFood w then
            (case queen (colonies g ! ci) of
               None \<Rightarrow> g
             | Some q \<Rightarrow>
                 (let dist = distance (ant_x w) (ant_y w) (ant_x q) (ant_y q)
                  in if dist < 2.5 then
                       (let c = colonies g ! ci;
                            g1 = g\<lparr>colonies := (colonies g)[ci := c\<lparr>food := food c + foodAmount w\<rparr>]\<rparr>
                        in setWorker g1 ci wi (w\<lparr>foodAmount := 0, carryingFood := False\<rparr>))
                     else g))
          else g)"







definition free :: "grid \<Rightarrow> real \<times> real \<Rightarrow> bool" where
  "free g p \<longleftrightarrow> canMove g (fst p) (snd p) = Inr True"







text \<open>
  The scores of \<^verbatim>\<open>findPath\<close> are numbers or \<^verbatim>\<open>Infinity\<close>; \<open>addScore\<close> and \<open>lessScore\<close> are
  \<^verbatim>\<open>+\<close> and \<^verbatim>\<open><\<close> on them.
\<close>

datatype score = Finite real | Infinity

fun addScore :: "score \<Rightarrow> real \<Rightarrow> score" where
  "addScore (Finite a) b = Finite (a + b)"
| "addScore Infinity b = Infinity"

fun lessScore :: "score \<Rightarrow> score \<Rightarrow> bool" where
  "lessScore (Finite a) (Finite b) \<longleftrightarrow> a < b"
| "lessScore (Finite a) Infinity \<longleftrightarrow> True"
| "lessScore Infinity b \<longleftrightarrow> False"

text \<open>
  \<^verbatim>\<open>map.get(key) || Infinity\<close>: the left operand is replaced when it is \<^verbatim>\<open>undefined\<close>, and
  also when it is the number \<open>0\<close>, which JavaScript takes for false.
\<close>

fun orInfinity :: "score option \<Rightarrow> score" where
  "orInfinity None = Infinity"
| "orInfinity (Some (Finite v)) = (if v = 0 then Infinity else Finite v)"
| "orInfinity (Some Infinity) = Infinity"

text \<open>
  A node is a tile, \<^verbatim>\<open>{x, y}\<close>; the maps are keyed by the string \<^verbatim>\<open>x,y\<close>, which
  names the tile, so the model keys them by the tile.
\<close>

type_synonym node = "int \<times> int"

record search =
  openSet :: "node list"
  cameFrom :: "node \<rightharpoonup> node"
  gScore :: "node \<rightharpoonup> score"
  fScore :: "node \<rightharpoonup> score"

definition heuristic :: "int \<Rightarrow> int \<Rightarrow> int \<Rightarrow> int \<Rightarrow> real" where
  "heuristic x1 y1 x2 y2 = real_of_int (\<bar>x1 - x2\<bar> + \<bar>y1 - y2\<bar>)"

definition center :: "node \<Rightarrow> real \<times> real" where
  "center n = (real_of_int (fst n) + 0.5, real_of_int (snd n) + 0.5)"

text \<open>
  The loop of \<^verbatim>\<open>reconstructPath\<close> follows \<^verbatim>\<open>cameFrom\<close> for as long as the current node
  has an entry, and puts each node it reaches in front of the path. It does not end on a
  map with a cycle: then the value is \<open>None\<close>.
\<close>

partial_function (option) walkBack ::
  "(node \<rightharpoonup> node) \<Rightarrow> node \<Rightarrow> (real \<times> real) list \<Rightarrow> (real \<times> real) list option"
where
  "walkBack cf current waypoints =
     (case cf current of
        None \<Rightarrow> Some waypoints
      | Some prev \<Rightarrow> walkBack cf prev (center prev # waypoints))"

definition reconstructPath :: "(node \<rightharpoonup> node) \<Rightarrow> node \<Rightarrow> (real \<times> real) list option" where
  "reconstructPath cf current = walkBack cf current [center current]"

text \<open>
  The scan of \<^verbatim>\<open>openSet\<close> for the node of lowest \<^verbatim>\<open>fScore\<close>: \<open>ns\<close> is the rest of the
  array from index \<open>i\<close>, and the pair is \<^verbatim>\<open>current\<close> with \<^verbatim>\<open>currentIdx\<close>.
\<close>

fun lowest :: "(node \<rightharpoonup> score) \<Rightarrow> node list \<Rightarrow> node \<times> nat \<Rightarrow> nat \<Rightarrow> node \<times> nat" where
  "lowest f [] cur i = cur"
| "lowest f (n # ns) (current, currentIdx) i =
     (let currentF = orInfinity (f n);
          lowestF = orInfinity (f current)
      in if lessScore currentF lowestF then lowest f ns (n, i) (Suc i)
         else lowest f ns (current, currentIdx) (Suc i))"

definition neighbors :: "node \<Rightarrow> node list" where
  "neighbors c =
     [(fst c + 1, snd c), (fst c - 1, snd c), (fst c, snd c + 1), (fst c, snd c - 1),
      (fst c + 1, snd c + 1), (fst c + 1, snd c - 1), (fst c - 1, snd c + 1),
      (fst c - 1, snd c - 1)]"

text \<open>The loop over the neighbours of \<^verbatim>\<open>current\<close>.\<close>

fun relax :: "grid \<Rightarrow> node \<Rightarrow> node \<Rightarrow> node list \<Rightarrow> search \<Rightarrow> error + search" where
  "relax g goal current [] s = Inr s"
| "relax g goal current (neighbor # rest) s =
     (case canMove g (real_of_int (fst neighbor)) (real_of_int (snd neighbor)) of
        Inl e \<Rightarrow> Inl e
      | Inr False \<Rightarrow> relax g goal current rest s
      | Inr True \<Rightarrow>
          (let isDiagonal = fst neighbor \<noteq> fst current \<and> snd neighbor \<noteq> snd current;
               tentativeG = addScore (orInfinity (gScore s current)) (if isDiagonal then 1.4 else 1)
           in if lessScore tentativeG (orInfinity (gScore s neighbor)) then
                (let s1 = s\<lparr>cameFrom := (cameFrom s)(neighbor \<mapsto> current),
                            gScore := (gScore s)(neighbor \<mapsto> tentativeG),
                            fScore := (fScore s)(neighbor \<mapsto>
                              addScore tentativeG
                                (heuristic (fst neighbor) (snd neighbor) (fst goal) (snd goal)))\<rparr>;
                     s2 = (if neighbor \<in> set (openSet s1) then s1
                           else s1\<lparr>openSet := openSet s1 @ [neighbor]\<rparr>)
                 in relax g goal current rest s2)
              else relax g goal current rest s))"

text \<open>What a call does: it does not return, it throws, or it returns a value.\<close>

datatype 'a outcome = Diverges | Throws error | Returns 'a

text \<open>
  The \<^verbatim>\<open>while\<close> loop of \<^verbatim>\<open>findPath\<close> and the \<^verbatim>\<open>return null\<close> after it; \<open>iterations\<close>
  counts the rounds begun so far, and \<open>500\<close> is \<^verbatim>\<open>maxIterations\<close>.
\<close>

function astar :: "grid \<Rightarrow> node \<Rightarrow> nat \<Rightarrow> search \<Rightarrow> (real \<times> real) list option outcome" where
  "astar g goal iterations s =
     (if openSet s \<noteq> [] \<and> iterations < 500 then
        (case lowest (fScore s) (tl (openSet s)) (hd (openSet s), 0) 1 of
           (current, currentIdx) \<Rightarrow>
             if current = goal then
               (case reconstructPath (cameFrom s) current of
                  None \<Rightarrow> Diverges
                | Some p \<Rightarrow> Returns (Some p))
             else
               (case relax g goal current (neighbors current)
                       (s\<lparr>openSet := take currentIdx (openSet s) @ drop (Suc currentIdx) (openSet s)\<rparr>) of
                  Inl e \<Rightarrow> Throws e
                | Inr s' \<Rightarrow> astar g goal (Suc iterations) s'))
      else Returns None)"
  by pat_completeness auto

termination
  by (relation "measure (\<lambda>(g, goal, iterations, s). 500 - iterations)") auto

definition findPath ::
  "grid \<Rightarrow> real \<Rightarrow> real \<Rightarrow> real \<Rightarrow> real \<Rightarrow> (real \<times> real) list option outcome"
where
  "findPath g startX startY endX endY =
     (let start = (\<lfloor>startX\<rfloor>, \<lfloor>startY\<rfloor>);
          goal = (\<lfloor>endX\<rfloor>, \<lfloor>endY\<rfloor>)
      in case canMove g (real_of_int (fst start)) (real_of_int (snd start)) of
           Inl e \<Rightarrow> Throws e
         | Inr False \<Rightarrow> Returns None
         | Inr True \<Rightarrow>
             (case canMove g (real_of_int (fst goal)) (real_of_int (snd goal)) of
                Inl e \<Rightarrow> Throws e
              | Inr False \<Rightarrow> Returns None
              | Inr True \<Rightarrow>
                  astar g goal 0
                    \<lparr>openSet = [start],
                     cameFrom = Map.empty,
                     gScore = [start \<mapsto> Finite 0],
                     fScore = [start \<mapsto>
                       Finite (heuristic (fst start) (snd start) (fst goal) (snd goal))]\<rparr>))"



text \<open>A world of 5 by 5 open tiles, and a parent map of one link.\<close>

definition open5 :: grid where
  "open5 = \<lparr>worldWidth = 5, worldHeight = 5,
            tiles = replicate 5 (replicate 5
              \<lparr>type = Air, dug = True, hardness = None, digProgress = None\<rparr>)\<rparr>"


text \<open>
  An ant of the game is named by where it is kept: in \<^verbatim>\<open>game.enemies\<close>, among the workers
  of a colony, or as the queen of a colony.
\<close>

datatype target = EnemyRef nat | WorkerRef nat nat | QueenRef nat

text \<open>
  The test of \<^verbatim>\<open>checkCombat\<close> before each attack, for the attacker \<open>me\<close> and an ant at
  \<open>(x, y)\<close>: \<^verbatim>\<open>dist < 1.5 && this.attackCooldown <= 0\<close>.
\<close>

definition canHit :: "workerAnt \<Rightarrow> real \<Rightarrow> real \<Rightarrow> bool" where
  "canHit me x y \<longleftrightarrow> distance (ant_x me) (ant_y me) x y < 1.5 \<and> attackCooldown me \<le> 0"

text \<open>A loop that returns at the first element that gives a result.\<close>

fun firstSome :: "('a \<Rightarrow> 'b option) \<Rightarrow> 'a list \<Rightarrow> 'b option" where
  "firstSome f [] = None"
| "firstSome f (x # xs) = (case f x of Some y \<Rightarrow> Some y | None \<Rightarrow> firstSome f xs)"

text \<open>
  The loop of \<^verbatim>\<open>checkCombat\<close> over \<^verbatim>\<open>game.enemies\<close>: the first living enemy ant that can
  be hit. No worker is a member of that list, so \<^verbatim>\<open>enemy === this\<close> is false there.
\<close>

definition scanEnemies :: "workerAnt \<Rightarrow> enemyAnt list \<Rightarrow> target option" where
  "scanEnemies me es =
     firstSome (\<lambda>(i, enemy).
        if \<not> alive enemy then None
        else if canHit me (ant_x enemy) (ant_y enemy) then Some (EnemyRef i) else None)
      (enumerate 0 es)"

text \<open>
  The body of the loop over \<^verbatim>\<open>game.colonies\<close> for the colony \<open>c\<close> at position \<open>cj\<close>; the
  attacker is worker \<open>wi\<close> of colony \<open>ci\<close>, whose faction is \<open>fac\<close>. The result is the ant
  that is attacked, if the body attacks one.
\<close>

definition scanColony :: "workerAnt \<Rightarrow> nat \<Rightarrow> nat \<Rightarrow> nat \<Rightarrow> nat \<times> colony \<Rightarrow> target option" where
  "scanColony me fac ci wi = (\<lambda>(cj, c).
     if factionId c = fac then None
     else (case firstSome (\<lambda>(wj, enemy).
                   if \<not> alive enemy \<or> (cj = ci \<and> wj = wi) then None
                   else if canHit me (ant_x enemy) (ant_y enemy) then Some (WorkerRef cj wj)
                   else None)
                 (enumerate 0 (workers c)) of
             Some t \<Rightarrow> Some t
           | None \<Rightarrow>
               (case queen c of
                  None \<Rightarrow> None
                | Some q \<Rightarrow>
                    if alive q \<and> canHit me (ant_x q) (ant_y q) then Some (QueenRef cj)
                    else None)))"

text \<open>
  \<^verbatim>\<open>enemy.takeDamage(damage, game)\<close> on the ant that \<open>t\<close> names, written back to where the
  ant is kept, with the food that it may drop.
\<close>

definition dropInto :: "foodSource list \<Rightarrow> foodSource list option \<Rightarrow> foodSource list" where
  "dropInto fs r = (case r of None \<Rightarrow> fs | Some fs' \<Rightarrow> fs')"

fun hit :: "game \<Rightarrow> target \<Rightarrow> real \<Rightarrow> game" where
  "hit g (EnemyRef i) dmg =
     (if i < length (enemies g) then
        (case takeDamage dmg (Some (foodSources g)) (enemies g ! i) of
           (e, r) \<Rightarrow> g\<lparr>enemies := (enemies g)[i := e], foodSources := dropInto (foodSources g) r\<rparr>)
      else g)"
| "hit g (WorkerRef cj wj) dmg =
     (if cj < length (colonies g) \<and> wj < length (workers (colonies g ! cj)) then
        (let c = colonies g ! cj
         in case takeDamage dmg (Some (foodSources g)) (workers c ! wj) of
              (w, r) \<Rightarrow> g\<lparr>colonies := (colonies g)[cj := c\<lparr>workers := (workers c)[wj := w]\<rparr>],
                          foodSources := dropInto (foodSources g) r\<rparr>)
      else g)"
| "hit g (QueenRef cj) dmg =
     (if cj < length (colonies g) then
        (let c = colonies g ! cj
         in case queen c of
              None \<Rightarrow> g
            | Some q \<Rightarrow>
                (case takeDamage dmg (Some (foodSources g)) q of
                   (q1, r) \<Rightarrow> g\<lparr>colonies := (colonies g)[cj := c\<lparr>queen := Some q1\<rparr>],
                               foodSources := dropInto (foodSources g) r\<rparr>))
      else g)"

text \<open>The attack itself: the hit, then \<^verbatim>\<open>this.attackCooldown = 0.5\<close>.\<close>

definition strike :: "game \<Rightarrow> nat \<Rightarrow> nat \<Rightarrow> target \<Rightarrow> real \<Rightarrow> game" where
  "strike g ci wi t dmg =
     (let g1 = hit g t dmg
      in case workerAt g1 ci wi of
           None \<Rightarrow> g1
         | Some me1 \<Rightarrow> setWorker g1 ci wi (me1\<lparr>attackCooldown := 0.5\<rparr>))"

text \<open>The damage of a hit: the player deals twice as much; queens take less.\<close>

definition damageFor :: "workerAnt \<Rightarrow> target \<Rightarrow> real" where
  "damageFor me t =
     (let workerDamage = (if isPlayer me then 30 else 15);
          queenDamage = (if isPlayer me then 20 else 10)
      in case t of QueenRef cj \<Rightarrow> queenDamage | _ \<Rightarrow> workerDamage)"

text \<open>
  \<^verbatim>\<open>WorkerAnt.checkCombat\<close> for worker \<open>wi\<close> of colony \<open>ci\<close>; \<^verbatim>\<open>this.colony\<close> is that colony.
  The enemy ants come first, then the colonies in order, in each its workers before its
  queen; the first ant that can be hit is attacked, and the method returns.
\<close>

definition checkCombat :: "game \<Rightarrow> nat \<Rightarrow> nat \<Rightarrow> game" where
  "checkCombat g ci wi =
     (case workerAt g ci wi of
        None \<Rightarrow> g
      | Some me \<Rightarrow>
          (case scanEnemies me (enemies g) of
             Some t \<Rightarrow> strike g ci wi t (damageFor me t)
           | None \<Rightarrow>
               (case firstSome (scanColony me (factionId (colonies g ! ci)) ci wi)
                       (enumerate 0 (colonies g)) of
                  Some t \<Rightarrow> strike g ci wi t (damageFor me t)
                | None \<Rightarrow> g)))"

text \<open>The first statements of \<^verbatim>\<open>WorkerAnt.update\<close> for a living ant: the timers run down.\<close>

definition coolDown :: "real \<Rightarrow> workerAnt \<Rightarrow> workerAnt" where
  "coolDown dt w =
     w\<lparr>digCooldown := max 0 (digCooldown w - dt),
       attackCooldown := max 0 (attackCooldown w - dt),
       stateTimer := stateTimer w - dt\<rparr>"

text \<open>A statement that may throw, followed by the rest of the method.\<close>

definition bindE :: "error + 'a \<Rightarrow> ('a \<Rightarrow> error + 'b) \<Rightarrow> error + 'b" where
  "bindE r f = (case r of Inl e \<Rightarrow> Inl e | Inr v \<Rightarrow> f v)"

fun bindO :: "'a outcome \<Rightarrow> ('a \<Rightarrow> 'b outcome) \<Rightarrow> 'b outcome" where
  "bindO Diverges f = Diverges"
| "bindO (Throws e) f = Throws e"
| "bindO (Returns v) f = f v"

definition lift :: "error + 'a \<Rightarrow> 'a outcome" where
  "lift r = (case r of Inl e \<Rightarrow> Throws e | Inr v \<Rightarrow> Returns v)"

text \<open>
  The digging of a blocked ant at \<open>(x, y)\<close> that heads in the direction \<open>(dirX, dirY)\<close>: on a
  diagonal course two digs of power \<^verbatim>\<open>dt * 8\<close> to the side, then always one of power
  \<^verbatim>\<open>dt * 10\<close> ahead. \<^verbatim>\<open>moveTowards\<close> and \<^verbatim>\<open>updatePlayer\<close> hold the same statements, the
  second with \<^verbatim>\<open>input.x\<close> and \<^verbatim>\<open>input.y\<close> for the direction.
\<close>

definition digAhead :: "grid \<Rightarrow> real \<Rightarrow> real \<Rightarrow> real \<Rightarrow> real \<Rightarrow> real \<Rightarrow> error + grid" where
  "digAhead g x y dirX dirY dt =
     bindE (if \<bar>dirX\<bar> > 0.1 \<and> \<bar>dirY\<bar> > 0.1
            then bindE (digTile g (x + dirX * 0.6) y (dt * 8))
                   (\<lambda>(b1, g1). bindE (digTile g1 x (y + dirY * 0.6) (dt * 8))
                      (\<lambda>(b2, g2). Inr g2))
            else Inr g)
       (\<lambda>g2. bindE (digTile g2 (x + dirX * 0.6) (y + dirY * 0.6) (dt * 10))
          (\<lambda>(b3, g3). Inr g3))"

text \<open>The step to \<open>(newX, newY)\<close> if an ant can stand there, and the digging if not.\<close>

definition stepOrDig ::
  "grid \<Rightarrow> workerAnt \<Rightarrow> real \<Rightarrow> real \<Rightarrow> real \<Rightarrow> real \<Rightarrow> real \<Rightarrow> error + (grid \<times> workerAnt)"
where
  "stepOrDig g w newX newY dirX dirY dt =
     bindE (canMove g newX newY)
       (\<lambda>passable.
          if passable then Inr (g, w\<lparr>ant_x := newX, ant_y := newY\<rparr>)
          else bindE (digAhead g (ant_x w) (ant_y w) dirX dirY dt) (\<lambda>g1. Inr (g1, w)))"

text \<open>\<^verbatim>\<open>WorkerAnt.moveTowards(targetX, targetY, dt, game)\<close>.\<close>

definition moveTowards ::
  "real \<Rightarrow> real \<Rightarrow> real \<Rightarrow> grid \<Rightarrow> workerAnt \<Rightarrow> error + (grid \<times> workerAnt)"
where
  "moveTowards targetX targetY dt g w =
     (let dx = targetX - ant_x w;
          dy = targetY - ant_y w;
          dist = sqrt (dx * dx + dy * dy)
      in if dist > 0.1 then
           (let dirX = dx / dist;
                dirY = dy / dist;
                newX = ant_x w + dirX * speed w * dt;
                newY = ant_y w + dirY * speed w * dt
            in stepOrDig g w newX newY dirX dirY dt)
         else Inr (g, w))"

text \<open>
  The first block of \<^verbatim>\<open>WorkerAnt.updatePlayer\<close>: the player's ant moves where the input
  points, or digs. The input is the pair \<^verbatim>\<open>(input.x, input.y)\<close>.
\<close>

definition playerMove ::
  "real \<times> real \<Rightarrow> real \<Rightarrow> grid \<Rightarrow> workerAnt \<Rightarrow> error + (grid \<times> workerAnt)"
where
  "playerMove input dt g w =
     (if fst input \<noteq> 0 \<or> snd input \<noteq> 0 then
        (let newX = ant_x w + fst input * speed w * dt;
             newY = ant_y w + snd input * speed w * dt
         in stepOrDig g w newX newY (fst input) (snd input) dt)
      else Inr (g, w))"

text \<open>\<^verbatim>\<open>WorkerAnt.updatePlayer\<close>: the move, then the pickup, then the delivery.\<close>

definition updatePlayer ::
  "real \<Rightarrow> real \<times> real \<Rightarrow> grid \<Rightarrow> game \<Rightarrow> nat \<Rightarrow> nat \<Rightarrow> error + (grid \<times> game)"
where
  "updatePlayer dt input g gm ci wi =
     (case workerAt gm ci wi of
        None \<Rightarrow> Inr (g, gm)
      | Some w \<Rightarrow>
          bindE (playerMove input dt g w)
            (\<lambda>(g1, w1). Inr (g1, playerDeliver (playerPickup (setWorker gm ci wi w1) ci wi) ci wi)))"

text \<open>
  The search of \<^verbatim>\<open>updateAI\<close> for the nearest source that is not empty; of two sources
  equally near, the earlier in the list stays.
\<close>

fun nearestFood ::
  "real \<Rightarrow> real \<Rightarrow> (nat \<times> foodSource) list \<Rightarrow> nat option \<Rightarrow> score \<Rightarrow> nat option"
where
  "nearestFood x y [] nearest nearestDist = nearest"
| "nearestFood x y ((i, f) # rest) nearest nearestDist =
     (if amount f > 0 then
        (let dist = distance x y (food_x f) (food_y f)
         in if lessScore (Finite dist) nearestDist
            then nearestFood x y rest (Some i) (Finite dist)
            else nearestFood x y rest nearest nearestDist)
      else nearestFood x y rest nearest nearestDist)"

text \<open>
  \<^verbatim>\<open>if (!this.targetFood || this.targetFood.amount === 0)\<close>: the ant looks for a new
  target when it has none or when its target is empty. A target that is no longer in the
  list is empty: \<^verbatim>\<open>Game.update\<close> removes a source only when its amount is not above 0.
\<close>

definition chooseTarget :: "foodSource list \<Rightarrow> workerAnt \<Rightarrow> workerAnt" where
  "chooseTarget fs w =
     (if (case targetFood w of
            None \<Rightarrow> True
          | Some fi \<Rightarrow> \<not> fi < length fs \<or> amount (fs ! fi) = 0)
      then w\<lparr>targetFood := nearestFood (ant_x w) (ant_y w) (enumerate 0 fs) None Infinity\<rparr>
      else w)"

text \<open>
  The wandering of an ant that finds no food. \<^verbatim>\<open>moveTowards(undefined, undefined)\<close>, for an
  ant that has not yet chosen where to wander, computes with values that are not numbers
  and does not move.
\<close>

definition wander ::
  "(nat \<Rightarrow> real) \<Rightarrow> real \<Rightarrow> grid \<Rightarrow> workerAnt \<Rightarrow> error + (grid \<times> workerAnt)"
where
  "wander rnd dt g w =
     (let w1 = (if stateTimer w \<le> 0
                then w\<lparr>wanderX := Some (ant_x w + (rnd 0 - 0.5) * 5),
                       wanderY := Some (ant_y w + (rnd 1 - 0.5) * 5),
                       stateTimer := 3\<rparr>
                else w)
      in case (wanderX w1, wanderY w1) of
           (Some tx, Some ty) \<Rightarrow> moveTowards tx ty dt g w1
         | _ \<Rightarrow> Inr (g, w1))"

text \<open>
  The branch of \<^verbatim>\<open>updateAI\<close> for an ant that carries nothing: it chooses a target, walks
  towards it and picks up, or wanders.
\<close>

definition seekFood ::
  "real \<Rightarrow> (nat \<Rightarrow> real) \<Rightarrow> grid \<Rightarrow> game \<Rightarrow> nat \<Rightarrow> nat \<Rightarrow> workerAnt \<Rightarrow> error + (grid \<times> game)"
where
  "seekFood dt rnd g gm ci wi w =
     (let w1 = chooseTarget (foodSources gm) w
      in case targetFood w1 of
           Some fi \<Rightarrow>
             (let target = foodSources gm ! fi
              in bindE (moveTowards (food_x target) (food_y target) dt g w1)
                   (\<lambda>(g1, w2). Inr (g1, aiPickup (setWorker gm ci wi w2) ci wi)))
         | None \<Rightarrow>
             bindE (wander rnd dt g w1) (\<lambda>(g1, w2). Inr (g1, setWorker gm ci wi w2)))"

text \<open>
  The walk of a carrying ant towards its queen \<open>q\<close>: the path is computed anew when there
  is none or when the timer has run out; the ant heads for the waypoint at \<^verbatim>\<open>pathIndex\<close>
  and goes on to the next one when it is nearer than 0.5, or heads straight for the queen
  when there is no waypoint left.
\<close>

definition followPath ::
  "real \<Rightarrow> grid \<Rightarrow> queen \<Rightarrow> workerAnt \<Rightarrow> (grid \<times> workerAnt) outcome"
where
  "followPath dt g q w =
     bindO (if path w = None \<or> pathRecalcTimer w \<le> 0
            then bindO (findPath g (ant_x w) (ant_y w) (ant_x q) (ant_y q))
                   (\<lambda>p. Returns (w\<lparr>path := p, pathIndex := 0, pathRecalcTimer := 2\<rparr>))
            else Returns w)
       (\<lambda>w1. lift
          (case path w1 of
             None \<Rightarrow> moveTowards (ant_x q) (ant_y q) dt g w1
           | Some p \<Rightarrow>
               if pathIndex w1 < length p then
                 (let target = p ! pathIndex w1
                  in bindE (moveTowards (fst target) (snd target) dt g w1)
                       (\<lambda>(g1, w2).
                          if distance (ant_x w2) (ant_y w2) (fst target) (snd target) < 0.5
                          then Inr (g1, w2\<lparr>pathIndex := Suc (pathIndex w2)\<rparr>)
                          else Inr (g1, w2)))
               else moveTowards (ant_x q) (ant_y q) dt g w1))"

text \<open>The branch of \<^verbatim>\<open>updateAI\<close> for an ant that carries food.\<close>

definition carryHome ::
  "real \<Rightarrow> grid \<Rightarrow> game \<Rightarrow> nat \<Rightarrow> nat \<Rightarrow> workerAnt \<Rightarrow> (grid \<times> game) outcome"
where
  "carryHome dt g gm ci wi w =
     (let w1 = w\<lparr>pathRecalcTimer := pathRecalcTimer w - dt\<rparr>
      in case queen (colonies gm ! ci) of
           None \<Rightarrow> Returns (g, setWorker gm ci wi w1)
         | Some q \<Rightarrow>
             bindO (followPath dt g q w1)
               (\<lambda>(g1, w2). Returns (g1, aiDeliver (setWorker gm ci wi w2) ci wi)))"

definition updateAI ::
  "real \<Rightarrow> (nat \<Rightarrow> real) \<Rightarrow> grid \<Rightarrow> game \<Rightarrow> nat \<Rightarrow> nat \<Rightarrow> (grid \<times> game) outcome"
where
  "updateAI dt rnd g gm ci wi =
     (case workerAt gm ci wi of
        None \<Rightarrow> Returns (g, gm)
      | Some w \<Rightarrow>
          if carryingFood w then carryHome dt g gm ci wi w
          else lift (seekFood dt rnd g gm ci wi w))"

text \<open>
  \<^verbatim>\<open>WorkerAnt.update(dt, input, game)\<close> for worker \<open>wi\<close> of colony \<open>ci\<close>. \<open>act\<close> is what a
  living ant does before its combat check: the timers run down and the ant moves, digs,
  picks up or delivers as the player or on its own. \<open>rnd\<close> gives the values that
  \<^verbatim>\<open>Math.random()\<close> draws for the wandering.
\<close>

definition act ::
  "real \<Rightarrow> real \<times> real \<Rightarrow> (nat \<Rightarrow> real) \<Rightarrow> grid \<Rightarrow> game \<Rightarrow> nat \<Rightarrow> nat \<Rightarrow> workerAnt
     \<Rightarrow> (grid \<times> game) outcome"
where
  "act dt input rnd g gm ci wi w =
     (let gm1 = setWorker gm ci wi (coolDown dt w)
      in if isPlayer w then lift (updatePlayer dt input g gm1 ci wi)
         else updateAI dt rnd g gm1 ci wi)"

definition update ::
  "real \<Rightarrow> real \<times> real \<Rightarrow> (nat \<Rightarrow> real) \<Rightarrow> grid \<Rightarrow> game \<Rightarrow> nat \<Rightarrow> nat \<Rightarrow> (grid \<times> game) outcome"
where
  "update dt input rnd g gm ci wi =
     (case workerAt gm ci wi of
        None \<Rightarrow> Returns (g, gm)
      | Some w \<Rightarrow>
          if \<not> alive w then Returns (g, gm)
          else bindO (act dt input rnd g gm ci wi w)
                 (\<lambda>(g1, gm1). Returns (g1, checkCombat gm1 ci wi)))"








section \<open>Rounding to doubles\<close>

lemma exponentDown_numeral:
  "exponentDown (numeral k) x = (if 1 \<le> x then 0 else exponentDown (pred_numeral k) (2 * x) - 1)"
  by (simp add: numeral_eq_Suc)

lemma nearestEven_of_int [simp]: "nearestEven (of_int k) = k"
  by (simp add: nearestEven_def)

lemma nearestEven_bounds: "\<lfloor>x\<rfloor> \<le> nearestEven x \<and> nearestEven x \<le> \<lfloor>x\<rfloor> + 1"
  by (simp add: nearestEven_def Let_def)

lemma nearestEven_mono:
  assumes "x \<le> y"
  shows "nearestEven x \<le> nearestEven y"
proof (cases "\<lfloor>x\<rfloor> = \<lfloor>y\<rfloor>")
  case True
  with assms show ?thesis by (auto simp: nearestEven_def Let_def)
next
  case False
  with assms have "\<lfloor>x\<rfloor> < \<lfloor>y\<rfloor>" using floor_mono [OF assms] by simp
  with nearestEven_bounds [of x] nearestEven_bounds [of y] show ?thesis by linarith
qed

lemma pow2_pos [simp]: "0 < (2::real) powi e"
  by simp

lemma pow2_Suc: "(2::real) powi (e + 1) = 2 * 2 powi e"
  by (simp add: power_int_add)

lemma pow2_pred: "(2::real) powi (e - 1) = 2 powi e / 2"
  by (simp add: power_int_diff)

lemma pow2_mono: "e \<le> e' \<Longrightarrow> (2::real) powi e \<le> 2 powi e'"
  by (rule power_int_increasing) simp_all

lemma pow2_less_iff: "(2::real) powi e < 2 powi e' \<longleftrightarrow> e < e'"
proof
  assume "(2::real) powi e < 2 powi e'"
  show "e < e'"
  proof (rule ccontr)
    assume "\<not> e < e'"
    then have "(2::real) powi e' \<le> 2 powi e" by (intro pow2_mono) simp
    with \<open>(2::real) powi e < 2 powi e'\<close> show False by simp
  qed
next
  assume "e < e'"
  then show "(2::real) powi e < 2 powi e'" by (intro power_int_strict_increasing) simp_all
qed

lemma exponentUp_bounds:
  "1 \<le> x \<Longrightarrow> 0 \<le> exponentUp x \<and> 2 powi (exponentUp x) \<le> x \<and> x < 2 powi (exponentUp x + 1)"
proof (induction x rule: exponentUp.induct)
  case (1 x)
  show ?case
  proof (cases "x < 2")
    case True
    with "1.prems" show ?thesis by (subst (1 2 3) exponentUp.simps) simp
  next
    case False
    then have "1 \<le> x / 2" by simp
    from "1.IH" [OF False this]
    have ih: "0 \<le> exponentUp (x / 2)" "2 powi (exponentUp (x / 2)) \<le> x / 2"
      "x / 2 < 2 powi (exponentUp (x / 2) + 1)" by simp_all
    have e: "exponentUp x = exponentUp (x / 2) + 1"
      using False by (subst exponentUp.simps) simp
    have "2 powi (exponentUp (x / 2) + 1) \<le> x"
      using ih(2) by (simp add: pow2_Suc)
    moreover have "x < 2 powi (exponentUp (x / 2) + 1 + 1)"
      using ih(3) by (subst pow2_Suc) simp
    ultimately show ?thesis unfolding e using ih(1) by simp
  qed
qed

lemma exponentDown_normal:
  "2 powi (- int n) \<le> x \<Longrightarrow> x < 1 \<Longrightarrow>
   - int n \<le> exponentDown n x \<and> 2 powi (exponentDown n x) \<le> x \<and> x < 2 powi (exponentDown n x + 1)"
proof (induction n arbitrary: x)
  case 0
  then show ?case by simp
next
  case (Suc n)
  show ?case
  proof (cases "1 \<le> 2 * x")
    case True
    then have "exponentDown n (2 * x) = 0" by (cases n) simp_all
    with Suc.prems True show ?thesis by (simp add: power_int_minus_divide)
  next
    case False
    have "(2::real) powi (- int n) = 2 * 2 powi (- int (Suc n))"
      using pow2_Suc [of "- int (Suc n)"] by simp
    with Suc.prems have "2 powi (- int n) \<le> 2 * x" by simp
    from Suc.IH [OF this] False
    have ih: "- int n \<le> exponentDown n (2 * x)" "2 powi (exponentDown n (2 * x)) \<le> 2 * x"
      "2 * x < 2 powi (exponentDown n (2 * x) + 1)" by simp_all
    from ih Suc.prems show ?thesis by (simp add: pow2_pred pow2_Suc)
  qed
qed

lemma exponentDown_subnormal:
  "x < 2 powi (- int n) \<Longrightarrow> exponentDown n x = - int n"
proof (induction n arbitrary: x)
  case 0
  then show ?case by simp
next
  case (Suc n)
  have e: "(2::real) powi (- int n) = 2 * 2 powi (- int (Suc n))"
    using pow2_Suc [of "- int (Suc n)"] by simp
  with Suc.prems have "2 * x < 2 powi (- int n)" by simp
  from Suc.IH [OF this] have "exponentDown n (2 * x) = - int n" .
  moreover have "(2::real) powi (- int (Suc n)) \<le> 2 powi 0"
    by (rule pow2_mono) simp
  then have "x < 1" using Suc.prems by simp
  ultimately show ?case by simp
qed

lemma exponent_lower: "- 1022 \<le> exponent x"
proof (cases "1 \<le> x")
  case True
  with exponentUp_bounds [OF True] show ?thesis by (simp add: exponent_def)
next
  case False
  show ?thesis
  proof (cases "2 powi (- int 1022) \<le> x")
    case True
    with exponentDown_normal [of 1022 x] False show ?thesis by (simp add: exponent_def)
  next
    case False
    with exponentDown_subnormal [of x 1022] \<open>\<not> 1 \<le> x\<close> show ?thesis by (simp add: exponent_def)
  qed
qed

lemma exponent_normal:
  assumes "2 powi (- 1022) \<le> x"
  shows "2 powi (exponent x) \<le> x \<and> x < 2 powi (exponent x + 1)"
proof (cases "1 \<le> x")
  case True
  with exponentUp_bounds [OF True] show ?thesis by (simp add: exponent_def)
next
  case False
  with exponentDown_normal [of 1022 x] assms show ?thesis by (simp add: exponent_def)
qed

lemma exponent_subnormal:
  assumes "x < 2 powi (- 1022)"
  shows "exponent x = - 1022"
proof -
  have "(2::real) powi (- 1022) \<le> 2 powi 0" by (rule pow2_mono) simp
  with assms have "\<not> 1 \<le> x" by simp
  with exponentDown_subnormal [of x 1022] assms show ?thesis by (simp add: exponent_def)
qed

lemma exponent_upper: "x < 2 powi (exponent x + 1)"
proof (cases "2 powi (- 1022) \<le> x")
  case True
  then show ?thesis using exponent_normal by blast
next
  case False
  then have "x < 2 powi (- 1022)" by simp
  also have "(2::real) powi (- 1022) \<le> 2 powi (exponent x + 1)"
    using exponent_lower [of x] by (intro pow2_mono) simp
  finally show ?thesis .
qed

lemma exponent_eqI:
  assumes "- 1022 \<le> e" "x < 2 powi (e + 1)" "2 powi e \<le> x \<or> e = - 1022"
  shows "exponent x = e"
proof (cases "2 powi (- 1022) \<le> x")
  case True
  from assms(3) have lo: "2 powi e \<le> x"
  proof
    assume "e = - 1022" with True show ?thesis by simp
  qed
  from exponent_normal [OF True] have b: "2 powi (exponent x) \<le> x" "x < 2 powi (exponent x + 1)"
    by simp_all
  from lo b(2) have "(2::real) powi e < 2 powi (exponent x + 1)" by simp
  then have "e < exponent x + 1" by (simp only: pow2_less_iff)
  moreover from b(1) assms(2) have "(2::real) powi (exponent x) < 2 powi (e + 1)" by simp
  then have "exponent x < e + 1" by (simp only: pow2_less_iff)
  ultimately show ?thesis by simp
next
  case False
  then have s: "x < 2 powi (- 1022)" by simp
  then have b: "exponent x = - 1022" by (rule exponent_subnormal)
  from assms(3) show ?thesis
  proof
    assume "2 powi e \<le> x"
    with s have "(2::real) powi e < 2 powi (- 1022)" by simp
    then have "e < - 1022" by (simp only: pow2_less_iff)
    with assms(1) show ?thesis by simp
  next
    assume "e = - 1022" with b show ?thesis by simp
  qed
qed

lemma exponent_mono:
  assumes "x \<le> y"
  shows "exponent x \<le> exponent y"
proof (cases "2 powi (- 1022) \<le> x")
  case True
  with assms have ny: "2 powi (- 1022) \<le> y" by simp
  from exponent_normal [OF True] exponent_normal [OF ny] assms
  have "(2::real) powi (exponent x) < 2 powi (exponent y + 1)" by simp
  then have "exponent x < exponent y + 1" by (simp only: pow2_less_iff)
  then show ?thesis by simp
next
  case False
  then have "exponent x = - 1022" by (simp add: exponent_subnormal)
  with exponent_lower [of y] show ?thesis by simp
qed

lemma ulp_pos [simp]: "0 < ulp x"
  by (simp add: ulp_def)

lemma ulp_nonneg [simp]: "0 \<le> ulp x"
  by (simp add: ulp_def)

lemma ulp_scale53: "2 powi (exponent x + 1) = 2 ^ 53 * ulp x"
proof -
  have "(2::real) powi ((exponent x - 52) + 53) = 2 powi (exponent x - 52) * 2 powi 53"
    by (rule power_int_add) simp
  moreover have "(exponent x - 52) + 53 = exponent x + 1" by simp
  ultimately show ?thesis by (simp add: ulp_def)
qed

lemma ulp_scale52: "2 powi (exponent x) = 2 ^ 52 * ulp x"
proof -
  have "(2::real) powi ((exponent x - 52) + 52) = 2 powi (exponent x - 52) * 2 powi 52"
    by (rule power_int_add) simp
  then show ?thesis by (simp add: ulp_def)
qed

lemma nearestEven_0 [simp]: "nearestEven 0 = 0"
  using nearestEven_of_int [of 0] by simp

lemma roundMagnitude_0 [simp]: "roundMagnitude 0 = 0"
  by (simp add: roundMagnitude_def)

lemma roundMagnitude_nonneg: "0 \<le> x \<Longrightarrow> 0 \<le> roundMagnitude x"
proof -
  assume "0 \<le> x"
  then have "0 \<le> x / ulp x" by (intro divide_nonneg_pos) simp_all
  then have "nearestEven 0 \<le> nearestEven (x / ulp x)" by (rule nearestEven_mono)
  then have "0 \<le> real_of_int (nearestEven (x / ulp x))" by simp
  then show ?thesis unfolding roundMagnitude_def by (intro mult_nonneg_nonneg) simp_all
qed

text \<open>The mantissa: at most 2^53, and at least 2^52 for a normal number.\<close>

lemma mantissa_upper: "nearestEven (x / ulp x) \<le> 2 ^ 53"
proof -
  have "x < 2 powi (exponent x + 1)" by (rule exponent_upper)
  then have "x / ulp x \<le> of_int (2 ^ 53)"
    by (simp add: ulp_scale53 pos_divide_le_eq)
  then have "nearestEven (x / ulp x) \<le> nearestEven (of_int (2 ^ 53))" by (rule nearestEven_mono)
  then show ?thesis by (simp only: nearestEven_of_int)
qed

lemma mantissa_lower:
  assumes "2 powi (exponent x) \<le> x"
  shows "2 ^ 52 \<le> nearestEven (x / ulp x)"
proof -
  from assms have "of_int (2 ^ 52) \<le> x / ulp x"
    by (simp add: ulp_scale52 pos_le_divide_eq)
  then have "nearestEven (of_int (2 ^ 52)) \<le> nearestEven (x / ulp x)" by (rule nearestEven_mono)
  then show ?thesis by (simp only: nearestEven_of_int)
qed

lemma roundMagnitude_upper: "roundMagnitude x \<le> 2 powi (exponent x + 1)"
proof -
  have "real_of_int (nearestEven (x / ulp x)) \<le> real_of_int (2 ^ 53)"
    using mantissa_upper [of x] by (simp only: of_int_le_iff)
  then have "roundMagnitude x \<le> real_of_int (2 ^ 53) * ulp x"
    unfolding roundMagnitude_def by (intro mult_right_mono) simp_all
  then show ?thesis by (simp add: ulp_scale53)
qed

lemma roundMagnitude_lower:
  assumes "2 powi (exponent x) \<le> x"
  shows "2 powi (exponent x) \<le> roundMagnitude x"
proof -
  have "real_of_int (2 ^ 52) \<le> real_of_int (nearestEven (x / ulp x))"
    using mantissa_lower [OF assms] by (simp only: of_int_le_iff)
  then have "real_of_int (2 ^ 52) * ulp x \<le> roundMagnitude x"
    unfolding roundMagnitude_def by (intro mult_right_mono) simp_all
  then show ?thesis by (simp add: ulp_scale52)
qed

lemma roundMagnitude_mono:
  assumes "x \<le> y"
  shows "roundMagnitude x \<le> roundMagnitude y"
proof (cases "exponent x = exponent y")
  case True
  then have u: "ulp x = ulp y" by (simp add: ulp_def)
  from assms have "x / ulp y \<le> y / ulp y" by (simp add: divide_right_mono)
  then have "nearestEven (x / ulp y) \<le> nearestEven (y / ulp y)" by (rule nearestEven_mono)
  then have "real_of_int (nearestEven (x / ulp y)) \<le> real_of_int (nearestEven (y / ulp y))"
    by (simp only: of_int_le_iff)
  then show ?thesis unfolding roundMagnitude_def u by (intro mult_right_mono) simp_all
next
  case False
  with exponent_mono [OF assms] have lt: "exponent x < exponent y" by simp
  with exponent_lower [of x] have "exponent y \<noteq> - 1022" by simp
  then have "\<not> y < 2 powi (- 1022)" using exponent_subnormal by blast
  then have "2 powi (exponent y) \<le> y" using exponent_normal [of y] by simp
  then have "2 powi (exponent y) \<le> roundMagnitude y" by (rule roundMagnitude_lower)
  moreover have "(2::real) powi (exponent x + 1) \<le> 2 powi (exponent y)"
    using lt by (intro pow2_mono) simp
  moreover note roundMagnitude_upper [of x]
  ultimately show ?thesis by linarith
qed

lemma toDouble_mono:
  assumes "x \<le> y"
  shows "toDouble x \<le> toDouble y"
proof -
  consider "x < 0" "y < 0" | "x < 0" "0 \<le> y" | "0 \<le> x" "0 \<le> y"
    using assms by linarith
  then show ?thesis
  proof cases
    case 1
    from assms have "roundMagnitude (- y) \<le> roundMagnitude (- x)" by (intro roundMagnitude_mono) simp
    with 1 show ?thesis by (simp add: toDouble_def)
  next
    case 2
    then have "0 \<le> roundMagnitude (- x)" "0 \<le> roundMagnitude y" by (simp_all add: roundMagnitude_nonneg)
    with 2 show ?thesis by (simp add: toDouble_def)
  next
    case 3
    with assms show ?thesis by (simp add: toDouble_def roundMagnitude_mono)
  qed
qed

lemma quotient_of_product: "a = k * u \<Longrightarrow> 0 < u \<Longrightarrow> a / u = (k::real)"
  by simp

lemma roundMagnitude_idem: "roundMagnitude (roundMagnitude x) = roundMagnitude x"
proof -
  let ?e = "exponent x" and ?m = "nearestEven (x / ulp x)"
  have y: "roundMagnitude x = real_of_int ?m * ulp x" by (simp add: roundMagnitude_def)
  show ?thesis
  proof (cases "?m = 2 ^ 53")
    case True
    then have v: "roundMagnitude x = 2 powi (?e + 1)" by (simp add: y ulp_scale53)
    have b: "exponent (roundMagnitude x) = ?e + 1"
      unfolding v using exponent_lower [of x]
      by (intro exponent_eqI) (simp_all add: pow2_less_iff)
    have "2 powi (?e + 1) = 2 ^ 52 * ulp (roundMagnitude x)"
      using ulp_scale52 [of "roundMagnitude x"] unfolding b .
    then have "roundMagnitude x = real_of_int (2 ^ 52) * ulp (roundMagnitude x)"
      using v by simp
    then have "roundMagnitude x / ulp (roundMagnitude x) = real_of_int (2 ^ 52)"
      using ulp_pos [of "roundMagnitude x"] by (rule quotient_of_product)
    then have "nearestEven (roundMagnitude x / ulp (roundMagnitude x)) = 2 ^ 52"
      by (simp only: nearestEven_of_int)
    then have "roundMagnitude (roundMagnitude x) = 2 ^ 52 * ulp (roundMagnitude x)"
      by (simp add: roundMagnitude_def [of "roundMagnitude x"])
    also have "\<dots> = 2 powi (?e + 1)"
      using ulp_scale52 [of "roundMagnitude x"] unfolding b by simp
    finally show ?thesis by (simp add: v)
  next
    case False
    with mantissa_upper [of x] have m: "?m < 2 ^ 53" by simp
    then have "real_of_int ?m < real_of_int (2 ^ 53)" by (simp only: of_int_less_iff)
    then have "roundMagnitude x < real_of_int (2 ^ 53) * ulp x"
      unfolding y by (intro mult_strict_right_mono) simp_all
    then have up: "roundMagnitude x < 2 powi (?e + 1)" by (simp add: ulp_scale53)
    have lo: "2 powi ?e \<le> roundMagnitude x \<or> ?e = - 1022"
    proof (cases "x < 2 powi (- 1022)")
      case True
      then show ?thesis by (simp add: exponent_subnormal)
    next
      case False
      then have "2 powi ?e \<le> x" using exponent_normal [of x] by simp
      then show ?thesis using roundMagnitude_lower by blast
    qed
    have b: "exponent (roundMagnitude x) = ?e"
      using exponent_lower [of x] up lo by (rule exponent_eqI)
    then have u: "ulp (roundMagnitude x) = ulp x" by (simp add: ulp_def)
    have "roundMagnitude x / ulp x = real_of_int ?m" by (simp add: y)
    then have "nearestEven (roundMagnitude x / ulp x) = ?m" by (simp only: nearestEven_of_int)
    then show ?thesis unfolding roundMagnitude_def [of "roundMagnitude x"] u by (simp add: y)
  qed
qed

lemma toDouble_idem: "toDouble (toDouble x) = toDouble x"
proof (cases "x < 0")
  case True
  then have n: "0 \<le> roundMagnitude (- x)" by (simp add: roundMagnitude_nonneg)
  show ?thesis
  proof (cases "roundMagnitude (- x) = 0")
    case True
    with \<open>x < 0\<close> show ?thesis by (simp add: toDouble_def)
  next
    case False
    with n have "- roundMagnitude (- x) < 0" by simp
    with \<open>x < 0\<close> show ?thesis by (simp add: toDouble_def roundMagnitude_idem)
  qed
next
  case False
  then have "0 \<le> roundMagnitude x" by (simp add: roundMagnitude_nonneg)
  with False show ?thesis by (simp add: toDouble_def roundMagnitude_idem)
qed

lemma isDouble_toDouble: "isDouble (toDouble x)"
  by (simp add: isDouble_def toDouble_idem)

lemma isDouble_addDouble: "isDouble (addDouble a b)"
  by (simp add: addDouble_def isDouble_toDouble)

lemma isDouble_0 [simp]: "isDouble 0"
  by (simp add: isDouble_def toDouble_def)

lemma addDouble_grows:
  assumes "isDouble a" "0 \<le> b"
  shows "a \<le> addDouble a b"
proof -
  from assms(2) have "toDouble a \<le> toDouble (a + b)" by (intro toDouble_mono) simp
  with assms(1) show ?thesis by (simp add: isDouble_def addDouble_def)
qed

text \<open>The rules that compute a rounded sum of given numbers.\<close>

lemmas double_arith =
  addDouble_def toDouble_def roundMagnitude_def ulp_def exponent_def exponentDown_numeral
  exponentUp.simps nearestEven_def Let_def

section \<open>Digging\<close>

lemma tileAt_ok:
  assumes "grid_ok g" "isValidTile g tx ty"
  shows "tileAt g tx ty = Inr (Some (cell g tx ty))"
proof -
  from assms have r: "nat ty < length (tiles g)"
    by (auto simp: grid_ok_def isValidTile_def)
  then have "tiles g ! nat ty \<in> set (tiles g)" by simp
  moreover from assms have "\<forall>row\<in>set (tiles g). length row = nat (worldWidth g)"
    by (simp add: grid_ok_def list_all_iff)
  ultimately have "length (tiles g ! nat ty) = nat (worldWidth g)" by blast
  with assms have "nat tx < length (tiles g ! nat ty)"
    by (auto simp: isValidTile_def)
  with r show ?thesis by (simp add: tileAt_def cell_def)
qed

lemma grid_ok_setTile: "grid_ok g \<Longrightarrow> grid_ok (setTile g tx ty t)"
proof -
  assume ok: "grid_ok g"
  let ?ts = "(tiles g)[nat ty := (tiles g ! nat ty)[nat tx := t]]"
  have len: "length ?ts = length (tiles g)" by simp
  have "length (?ts ! n) = length (tiles g ! n)" if "n < length (tiles g)" for n
    using that by (cases "n = nat ty") simp_all
  with ok len show ?thesis
    unfolding grid_ok_def setTile_def list_all_length by simp
qed

lemma setTile_dims [simp]:
  "worldWidth (setTile g tx ty t) = worldWidth g"
  "worldHeight (setTile g tx ty t) = worldHeight g"
  by (simp_all add: setTile_def)

lemma cell_setTile_same:
  assumes "grid_ok g" "isValidTile g tx ty"
  shows "cell (setTile g tx ty t) tx ty = t"
proof -
  from assms have r: "nat ty < length (tiles g)"
    by (auto simp: grid_ok_def isValidTile_def)
  then have "tiles g ! nat ty \<in> set (tiles g)" by simp
  moreover from assms have "\<forall>row\<in>set (tiles g). length row = nat (worldWidth g)"
    by (simp add: grid_ok_def list_all_iff)
  ultimately have "length (tiles g ! nat ty) = nat (worldWidth g)" by blast
  with assms have "nat tx < length (tiles g ! nat ty)"
    by (auto simp: isValidTile_def)
  with r show ?thesis by (simp add: setTile_def cell_def)
qed

lemma nth_setTile_other:
  "j \<noteq> nat ty \<or> i \<noteq> nat tx \<Longrightarrow> tiles (setTile g tx ty t) ! j ! i = tiles g ! j ! i"
  by (cases "j = nat ty"; cases "nat ty < length (tiles g)") (auto simp: setTile_def list_update_beyond)

lemma digTile_invalid:
  "\<not> isValidTile g \<lfloor>x\<rfloor> \<lfloor>y\<rfloor> \<Longrightarrow> digTile g x y p = Inr (False, g)"
  by (simp add: digTile_def)

lemma digTile_noop:
  assumes "grid_ok g" "isValidTile g \<lfloor>x\<rfloor> \<lfloor>y\<rfloor>"
    and "dug (cell g \<lfloor>x\<rfloor> \<lfloor>y\<rfloor>) \<or> type (cell g \<lfloor>x\<rfloor> \<lfloor>y\<rfloor>) \<noteq> Dirt"
  shows "digTile g x y p = Inr (False, g)"
  using assms by (auto simp: digTile_def tileAt_ok Let_def)

lemma digTile_dirt:
  assumes "grid_ok g" "isValidTile g \<lfloor>x\<rfloor> \<lfloor>y\<rfloor>"
    and "\<not> dug (cell g \<lfloor>x\<rfloor> \<lfloor>y\<rfloor>)" "type (cell g \<lfloor>x\<rfloor> \<lfloor>y\<rfloor>) = Dirt"
  shows "digTile g x y p =
           Inr (reached (addDouble (progressOf (cell g \<lfloor>x\<rfloor> \<lfloor>y\<rfloor>)) p) (hardness (cell g \<lfloor>x\<rfloor> \<lfloor>y\<rfloor>)),
                setTile g \<lfloor>x\<rfloor> \<lfloor>y\<rfloor> (dugTile (cell g \<lfloor>x\<rfloor> \<lfloor>y\<rfloor>) p))"
  using assms by (simp add: digTile_def tileAt_ok Let_def dugTile_def)

lemma digTile_cases:
  assumes "grid_ok g"
  shows "digTile g x y p = Inr (False, g) \<or>
         (isValidTile g \<lfloor>x\<rfloor> \<lfloor>y\<rfloor> \<and> \<not> dug (cell g \<lfloor>x\<rfloor> \<lfloor>y\<rfloor>) \<and> type (cell g \<lfloor>x\<rfloor> \<lfloor>y\<rfloor>) = Dirt \<and>
          digTile g x y p =
           Inr (reached (addDouble (progressOf (cell g \<lfloor>x\<rfloor> \<lfloor>y\<rfloor>)) p) (hardness (cell g \<lfloor>x\<rfloor> \<lfloor>y\<rfloor>)),
                setTile g \<lfloor>x\<rfloor> \<lfloor>y\<rfloor> (dugTile (cell g \<lfloor>x\<rfloor> \<lfloor>y\<rfloor>) p)))"
  using digTile_invalid [of g x y p] digTile_noop [OF assms, of x y p] digTile_dirt [OF assms, of x y p]
  by blast

lemma digRepeat_blocked:
  assumes "grid_ok g"
    and "\<not> isValidTile g \<lfloor>x\<rfloor> \<lfloor>y\<rfloor> \<or> dug (cell g \<lfloor>x\<rfloor> \<lfloor>y\<rfloor>) \<or> type (cell g \<lfloor>x\<rfloor> \<lfloor>y\<rfloor>) \<noteq> Dirt"
  shows "digRepeat g x y ps = Inr (replicate (length ps) False, g)"
proof (induction ps)
  case Nil
  show ?case by simp
next
  case (Cons p ps)
  have "digTile g x y p = Inr (False, g)"
    using assms digTile_invalid digTile_noop by blast
  with Cons show ?case by simp
qed

lemma accumulated_Cons_0: "accumulated p0 (p # ps) 0 = addDouble p0 p"
  by (simp add: accumulated_def)

lemma accumulated_Cons_Suc: "accumulated p0 (p # ps) (Suc k) = accumulated (addDouble p0 p) ps k"
  by (simp add: accumulated_def)

lemma accumulated_grows:
  assumes "isDouble p0" "\<forall>q\<in>set ps. 0 \<le> q"
  shows "p0 \<le> accumulated p0 ps k \<and> accumulated p0 ps k \<le> accumulated p0 ps (Suc k)"
  using assms
proof (induction ps arbitrary: p0 k)
  case Nil
  then show ?case by (simp add: accumulated_def)
next
  case (Cons p ps)
  from Cons.prems have p: "0 \<le> p" and rest: "\<forall>q\<in>set ps. 0 \<le> q" by simp_all
  have first: "p0 \<le> addDouble p0 p" using Cons.prems(1) p by (rule addDouble_grows)
  have d: "isDouble (addDouble p0 p)" by (rule isDouble_addDouble)
  note ih = Cons.IH [OF d rest]
  show ?case
  proof (cases k)
    case 0
    with first ih [of 0] show ?thesis
      by (simp add: accumulated_Cons_0 accumulated_Cons_Suc)
  next
    case (Suc k')
    with first ih [of k'] show ?thesis by (simp add: accumulated_Cons_Suc)
  qed
qed

lemma digRepeat_dirt:
  assumes "grid_ok g" "isValidTile g \<lfloor>x\<rfloor> \<lfloor>y\<rfloor>"
    and "\<not> dug (cell g \<lfloor>x\<rfloor> \<lfloor>y\<rfloor>)" "type (cell g \<lfloor>x\<rfloor> \<lfloor>y\<rfloor>) = Dirt"
    and "hardness (cell g \<lfloor>x\<rfloor> \<lfloor>y\<rfloor>) = Some h"
  shows "\<exists>bs g'. digRepeat g x y ps = Inr (bs, g') \<and> length bs = length ps \<and>
           (\<forall>k<length ps. bs ! k \<longleftrightarrow>
              h \<le> accumulated (progressOf (cell g \<lfloor>x\<rfloor> \<lfloor>y\<rfloor>)) ps k \<and>
              (\<forall>j<k. accumulated (progressOf (cell g \<lfloor>x\<rfloor> \<lfloor>y\<rfloor>)) ps j < h)) \<and>
           (dug (cell g' \<lfloor>x\<rfloor> \<lfloor>y\<rfloor>) \<longleftrightarrow>
              (\<exists>k<length ps. h \<le> accumulated (progressOf (cell g \<lfloor>x\<rfloor> \<lfloor>y\<rfloor>)) ps k)) \<and>
           (\<forall>k<length ps. bs ! k \<longrightarrow>
              progressOf (cell g' \<lfloor>x\<rfloor> \<lfloor>y\<rfloor>) = accumulated (progressOf (cell g \<lfloor>x\<rfloor> \<lfloor>y\<rfloor>)) ps k) \<and>
           (ps \<noteq> [] \<and> \<not> dug (cell g' \<lfloor>x\<rfloor> \<lfloor>y\<rfloor>) \<longrightarrow>
              progressOf (cell g' \<lfloor>x\<rfloor> \<lfloor>y\<rfloor>) =
                accumulated (progressOf (cell g \<lfloor>x\<rfloor> \<lfloor>y\<rfloor>)) ps (length ps - 1))"
  using assms
proof (induction ps arbitrary: g)
  case Nil
  then show ?case by simp
next
  case (Cons p ps)
  let ?t = "cell g \<lfloor>x\<rfloor> \<lfloor>y\<rfloor>"
  let ?q = "addDouble (progressOf ?t) p"
  let ?g1 = "setTile g \<lfloor>x\<rfloor> \<lfloor>y\<rfloor> (dugTile ?t p)"
  have d: "digTile g x y p = Inr (reached ?q (Some h), ?g1)"
    using digTile_dirt [OF Cons.prems(1-4), of p] Cons.prems(5) by simp
  have ok1: "grid_ok ?g1" using Cons.prems(1) by (rule grid_ok_setTile)
  have v1: "isValidTile ?g1 \<lfloor>x\<rfloor> \<lfloor>y\<rfloor>" using Cons.prems(2) by (simp add: isValidTile_def)
  have c1: "cell ?g1 \<lfloor>x\<rfloor> \<lfloor>y\<rfloor> = dugTile ?t p"
    using Cons.prems(1,2) by (rule cell_setTile_same)
  have q1: "progressOf (cell ?g1 \<lfloor>x\<rfloor> \<lfloor>y\<rfloor>) = ?q"
    unfolding c1 by (simp add: dugTile_def progressOf_def)
  show ?case
  proof (cases "h \<le> ?q")
    case True
    then have t1: "dug (cell ?g1 \<lfloor>x\<rfloor> \<lfloor>y\<rfloor>)"
      using Cons.prems(5) unfolding c1 by (simp add: dugTile_def reached_def)
    then have r: "digRepeat ?g1 x y ps = Inr (replicate (length ps) False, ?g1)"
      using digRepeat_blocked [OF ok1] by blast
    have run: "digRepeat g x y (p # ps) = Inr (True # replicate (length ps) False, ?g1)"
      using d r True by (simp add: reached_def)
    have ix: "(True # replicate (length ps) False) ! k \<longleftrightarrow>
            h \<le> accumulated (progressOf ?t) (p # ps) k \<and>
            (\<forall>j<k. accumulated (progressOf ?t) (p # ps) j < h)"
      if "k < length (p # ps)" for k
    proof (cases k)
      case 0
      with True show ?thesis by (simp add: accumulated_Cons_0)
    next
      case (Suc k')
      with that have "(True # replicate (length ps) False) ! k = False" by simp
      moreover have "\<not> accumulated (progressOf ?t) (p # ps) 0 < h"
        using True by (simp add: accumulated_Cons_0)
      ultimately show ?thesis using Suc by blast
    qed
    have ex: "\<exists>k<length (p # ps). h \<le> accumulated (progressOf ?t) (p # ps) k"
      using True by (intro exI [of _ 0]) (simp add: accumulated_Cons_0)
    have at: "progressOf (cell ?g1 \<lfloor>x\<rfloor> \<lfloor>y\<rfloor>) = accumulated (progressOf ?t) (p # ps) k"
      if "k < length (p # ps)" "(True # replicate (length ps) False) ! k" for k
    proof (cases k)
      case 0
      then show ?thesis by (simp add: q1 accumulated_Cons_0)
    next
      case (Suc k')
      with that show ?thesis by simp
    qed
    show ?thesis
      unfolding run using ix ex at t1 by (intro exI conjI refl) auto
  next
    case False
    then have t1: "\<not> dug (cell ?g1 \<lfloor>x\<rfloor> \<lfloor>y\<rfloor>)" "type (cell ?g1 \<lfloor>x\<rfloor> \<lfloor>y\<rfloor>) = Dirt"
      "hardness (cell ?g1 \<lfloor>x\<rfloor> \<lfloor>y\<rfloor>) = Some h"
      using Cons.prems(3-5) unfolding c1 by (simp_all add: dugTile_def reached_def)
    from Cons.IH [OF ok1 v1 t1] obtain bs g' where
      r: "digRepeat ?g1 x y ps = Inr (bs, g')" and l: "length bs = length ps"
      and ix: "\<forall>k<length ps. bs ! k \<longleftrightarrow>
              h \<le> accumulated ?q ps k \<and> (\<forall>j<k. accumulated ?q ps j < h)"
      and fin: "dug (cell g' \<lfloor>x\<rfloor> \<lfloor>y\<rfloor>) \<longleftrightarrow> (\<exists>k<length ps. h \<le> accumulated ?q ps k)"
      and at: "\<forall>k<length ps. bs ! k \<longrightarrow> progressOf (cell g' \<lfloor>x\<rfloor> \<lfloor>y\<rfloor>) = accumulated ?q ps k"
      and last: "ps \<noteq> [] \<and> \<not> dug (cell g' \<lfloor>x\<rfloor> \<lfloor>y\<rfloor>) \<longrightarrow>
              progressOf (cell g' \<lfloor>x\<rfloor> \<lfloor>y\<rfloor>) = accumulated ?q ps (length ps - 1)"
      unfolding q1 by blast
    have run: "digRepeat g x y (p # ps) = Inr (False # bs, g')"
      using d r False by (simp add: reached_def)
    have ix': "(False # bs) ! k \<longleftrightarrow>
            h \<le> accumulated (progressOf ?t) (p # ps) k \<and>
            (\<forall>j<k. accumulated (progressOf ?t) (p # ps) j < h)"
      if "k < length (p # ps)" for k
    proof (cases k)
      case 0
      with False show ?thesis by (simp add: accumulated_Cons_0)
    next
      case (Suc k')
      with that have k': "k' < length ps" by simp
      have "(\<forall>j<Suc k'. accumulated (progressOf ?t) (p # ps) j < h) \<longleftrightarrow>
            (\<forall>j<k'. accumulated ?q ps j < h)"
        using False by (auto simp: less_Suc_eq_0_disj accumulated_Cons_0 accumulated_Cons_Suc)
      with ix k' Suc show ?thesis by (simp add: accumulated_Cons_Suc)
    qed
    have fin': "dug (cell g' \<lfloor>x\<rfloor> \<lfloor>y\<rfloor>) \<longleftrightarrow>
                   (\<exists>k<length (p # ps). h \<le> accumulated (progressOf ?t) (p # ps) k)"
      using False fin
      by (auto simp: less_Suc_eq_0_disj accumulated_Cons_0 accumulated_Cons_Suc)
    have at': "progressOf (cell g' \<lfloor>x\<rfloor> \<lfloor>y\<rfloor>) = accumulated (progressOf ?t) (p # ps) k"
      if "k < length (p # ps)" "(False # bs) ! k" for k
    proof (cases k)
      case 0
      with that show ?thesis by simp
    next
      case (Suc k')
      with that at show ?thesis by (simp add: accumulated_Cons_Suc)
    qed
    have last': "progressOf (cell g' \<lfloor>x\<rfloor> \<lfloor>y\<rfloor>) =
                   accumulated (progressOf ?t) (p # ps) (length (p # ps) - 1)"
      if "\<not> dug (cell g' \<lfloor>x\<rfloor> \<lfloor>y\<rfloor>)"
    proof (cases ps)
      case Nil
      with r have "g' = ?g1" by simp
      with Nil show ?thesis by (simp add: q1 accumulated_Cons_0)
    next
      case (Cons p' ps')
      with last that
      have "progressOf (cell g' \<lfloor>x\<rfloor> \<lfloor>y\<rfloor>) = accumulated ?q ps (length ps - 1)" by simp
      with Cons show ?thesis by (simp add: accumulated_Cons_Suc)
    qed
    show ?thesis
      unfolding run using ix' fin' at' last' l by (intro exI conjI refl) auto
  qed
qed

lemma digTile_frame_any:
  assumes "digTile g x y p = Inr (b, g')"
  shows "worldWidth g' = worldWidth g \<and> worldHeight g' = worldHeight g \<and>
         length (tiles g') = length (tiles g) \<and>
         (\<forall>j. length (tiles g' ! j) = length (tiles g ! j)) \<and>
         (\<forall>j i. j \<noteq> nat \<lfloor>y\<rfloor> \<or> i \<noteq> nat \<lfloor>x\<rfloor> \<longrightarrow> tiles g' ! j ! i = tiles g ! j ! i)"
proof -
  from assms have "g' = g \<or> (\<exists>t. g' = setTile g \<lfloor>x\<rfloor> \<lfloor>y\<rfloor> t)"
    by (auto simp: digTile_def Let_def split: if_splits sum.splits option.splits)
  then show ?thesis
  proof
    assume "g' = g" then show ?thesis by simp
  next
    assume "\<exists>t. g' = setTile g \<lfloor>x\<rfloor> \<lfloor>y\<rfloor> t"
    then obtain t where g': "g' = setTile g \<lfloor>x\<rfloor> \<lfloor>y\<rfloor> t" ..
    have "length (tiles g' ! j) = length (tiles g ! j)" for j
      unfolding g' setTile_def
      by (cases "j = nat \<lfloor>y\<rfloor>"; cases "nat \<lfloor>y\<rfloor> < length (tiles g)") (simp_all add: list_update_beyond)
    moreover have "tiles g' ! j ! i = tiles g ! j ! i" if "j \<noteq> nat \<lfloor>y\<rfloor> \<or> i \<noteq> nat \<lfloor>x\<rfloor>" for j i
      unfolding g' using that by (rule nth_setTile_other)
    ultimately show ?thesis by (simp add: g' setTile_def)
  qed
qed

text \<open>
  Eight calls with power \<^verbatim>\<open>0.1\<close> leave a tile of hardness \<^verbatim>\<open>0.8\<close> undug: the rounded sums
  reach \<^verbatim>\<open>0.7999999999999999\<close>, and the ninth call breaks through.
\<close>

lemma replicate_9: "replicate 9 x = [x, x, x, x, x, x, x, x, x]"
  by (simp add: numeral_eq_Suc)

lemma accumulated_tenths:
  "accumulated 0 (replicate 9 tenth) 7 < eightTenths"
  "eightTenths \<le> accumulated 0 (replicate 9 tenth) 8"
  unfolding replicate_9 accumulated_def
  by (simp_all add: tenth_def eightTenths_def eval_nat_numeral double_arith)

text \<open>
  Claim C1, as stated, fails for a negative power: the progress of the tile of \<open>dirt1\<close>
  drops from \<open>1/2\<close> to \<open>1/4\<close>.
\<close>

theorem digTile_negative_power_counterexample:
  "digTile dirt1 (1/2) (1/2) (- (1/4)) = Inr (False, dirt1_after) \<and>
   progressOf (cell dirt1_after 0 0) < progressOf (cell dirt1 0 0)"
  by (simp add: digTile_def dirt1_def dirt1_after_def isValidTile_def tileAt_def progressOf_def
        reached_def setTile_def cell_def double_arith)

text \<open>
  Claim C1, amended. On the grid of the game, \<^verbatim>\<open>digTile(x, y, p)\<close> changes nothing and
  returns false when the floored coordinates are out of bounds, the tile is already dug or
  its type is not dirt. Otherwise it adds \<open>p\<close> to the tile's \<^verbatim>\<open>digProgress\<close>, as JavaScript
  adds doubles; the progress does not decrease when \<open>p\<close> is not negative. It returns true
  exactly when the new progress reaches the hardness, and exactly then is the tile dug and
  air. Over repeated calls with powers \<open>ps\<close>, call \<open>k\<close> returns true exactly when the
  progress accumulated by the calls reaches the hardness at call \<open>k\<close> and at no earlier
  call; the tile ends up dug exactly when some call reached it; the progress that the tile
  is left with is the one accumulated at the call that returned true, or by all the calls
  when none did; and for powers that are not negative the accumulated progress never
  decreases from one call to the next.
\<close>

theorem digTile_accumulates:
  assumes "grid_ok g"
  shows
    "(\<not> isValidTile g \<lfloor>x\<rfloor> \<lfloor>y\<rfloor> \<or> dug (cell g \<lfloor>x\<rfloor> \<lfloor>y\<rfloor>) \<or> type (cell g \<lfloor>x\<rfloor> \<lfloor>y\<rfloor>) \<noteq> Dirt
        \<longrightarrow> digTile g x y p = Inr (False, g)) \<and>
     (isValidTile g \<lfloor>x\<rfloor> \<lfloor>y\<rfloor> \<and> \<not> dug (cell g \<lfloor>x\<rfloor> \<lfloor>y\<rfloor>) \<and> type (cell g \<lfloor>x\<rfloor> \<lfloor>y\<rfloor>) = Dirt
        \<longrightarrow> (\<exists>b g'. digTile g x y p = Inr (b, g') \<and>
               progressOf (cell g' \<lfloor>x\<rfloor> \<lfloor>y\<rfloor>) = addDouble (progressOf (cell g \<lfloor>x\<rfloor> \<lfloor>y\<rfloor>)) p \<and>
               isDouble (progressOf (cell g' \<lfloor>x\<rfloor> \<lfloor>y\<rfloor>)) \<and>
               (0 \<le> p \<and> isDouble (progressOf (cell g \<lfloor>x\<rfloor> \<lfloor>y\<rfloor>))
                  \<longrightarrow> progressOf (cell g \<lfloor>x\<rfloor> \<lfloor>y\<rfloor>) \<le> progressOf (cell g' \<lfloor>x\<rfloor> \<lfloor>y\<rfloor>)) \<and>
               (b \<longleftrightarrow> reached (addDouble (progressOf (cell g \<lfloor>x\<rfloor> \<lfloor>y\<rfloor>)) p)
                       (hardness (cell g \<lfloor>x\<rfloor> \<lfloor>y\<rfloor>))) \<and>
               (dug (cell g' \<lfloor>x\<rfloor> \<lfloor>y\<rfloor>) \<longleftrightarrow> b) \<and>
               (type (cell g' \<lfloor>x\<rfloor> \<lfloor>y\<rfloor>) = (if b then Air else Dirt)) \<and>
               hardness (cell g' \<lfloor>x\<rfloor> \<lfloor>y\<rfloor>) = hardness (cell g \<lfloor>x\<rfloor> \<lfloor>y\<rfloor>))) \<and>
     (isValidTile g \<lfloor>x\<rfloor> \<lfloor>y\<rfloor> \<and> \<not> dug (cell g \<lfloor>x\<rfloor> \<lfloor>y\<rfloor>) \<and> type (cell g \<lfloor>x\<rfloor> \<lfloor>y\<rfloor>) = Dirt \<and>
      hardness (cell g \<lfloor>x\<rfloor> \<lfloor>y\<rfloor>) = Some h
        \<longrightarrow> (\<exists>bs g'. digRepeat g x y ps = Inr (bs, g') \<and> length bs = length ps \<and>
               (\<forall>k<length ps. bs ! k \<longleftrightarrow>
                  h \<le> accumulated (progressOf (cell g \<lfloor>x\<rfloor> \<lfloor>y\<rfloor>)) ps k \<and>
                  (\<forall>j<k. accumulated (progressOf (cell g \<lfloor>x\<rfloor> \<lfloor>y\<rfloor>)) ps j < h)) \<and>
               (dug (cell g' \<lfloor>x\<rfloor> \<lfloor>y\<rfloor>) \<longleftrightarrow>
                  (\<exists>k<length ps. h \<le> accumulated (progressOf (cell g \<lfloor>x\<rfloor> \<lfloor>y\<rfloor>)) ps k)) \<and>
               (\<forall>k<length ps. bs ! k \<longrightarrow>
                  progressOf (cell g' \<lfloor>x\<rfloor> \<lfloor>y\<rfloor>) =
                    accumulated (progressOf (cell g \<lfloor>x\<rfloor> \<lfloor>y\<rfloor>)) ps k) \<and>
               (ps \<noteq> [] \<and> \<not> dug (cell g' \<lfloor>x\<rfloor> \<lfloor>y\<rfloor>) \<longrightarrow>
                  progressOf (cell g' \<lfloor>x\<rfloor> \<lfloor>y\<rfloor>) =
                    accumulated (progressOf (cell g \<lfloor>x\<rfloor> \<lfloor>y\<rfloor>)) ps (length ps - 1)))) \<and>
     (isDouble (progressOf (cell g \<lfloor>x\<rfloor> \<lfloor>y\<rfloor>)) \<and> (\<forall>q\<in>set ps. 0 \<le> q)
        \<longrightarrow> (\<forall>k. progressOf (cell g \<lfloor>x\<rfloor> \<lfloor>y\<rfloor>) \<le> accumulated (progressOf (cell g \<lfloor>x\<rfloor> \<lfloor>y\<rfloor>)) ps k \<and>
                 accumulated (progressOf (cell g \<lfloor>x\<rfloor> \<lfloor>y\<rfloor>)) ps k
                   \<le> accumulated (progressOf (cell g \<lfloor>x\<rfloor> \<lfloor>y\<rfloor>)) ps (Suc k)))"
proof (intro conjI impI)
  assume "\<not> isValidTile g \<lfloor>x\<rfloor> \<lfloor>y\<rfloor> \<or> dug (cell g \<lfloor>x\<rfloor> \<lfloor>y\<rfloor>) \<or> type (cell g \<lfloor>x\<rfloor> \<lfloor>y\<rfloor>) \<noteq> Dirt"
  then show "digTile g x y p = Inr (False, g)"
    using digTile_invalid digTile_noop [OF assms] by blast
next
  let ?t = "cell g \<lfloor>x\<rfloor> \<lfloor>y\<rfloor>"
  let ?q = "addDouble (progressOf ?t) p"
  assume a: "isValidTile g \<lfloor>x\<rfloor> \<lfloor>y\<rfloor> \<and> \<not> dug ?t \<and> type ?t = Dirt"
  then have d: "digTile g x y p =
      Inr (reached ?q (hardness ?t), setTile g \<lfloor>x\<rfloor> \<lfloor>y\<rfloor> (dugTile ?t p))"
    using digTile_dirt [OF assms] by blast
  have c: "cell (setTile g \<lfloor>x\<rfloor> \<lfloor>y\<rfloor> (dugTile ?t p)) \<lfloor>x\<rfloor> \<lfloor>y\<rfloor> = dugTile ?t p"
    using assms a by (simp add: cell_setTile_same)
  have f: "progressOf (dugTile ?t p) = ?q"
    "dug (dugTile ?t p) \<longleftrightarrow> reached ?q (hardness ?t)"
    "type (dugTile ?t p) = (if reached ?q (hardness ?t) then Air else Dirt)"
    "hardness (dugTile ?t p) = hardness ?t"
    using a by (simp_all add: dugTile_def progressOf_def)
  have i: "isDouble ?q" by (rule isDouble_addDouble)
  have m: "progressOf ?t \<le> ?q" if "0 \<le> p \<and> isDouble (progressOf ?t)"
    using that addDouble_grows by blast
  from d c f i m show "\<exists>b g'. digTile g x y p = Inr (b, g') \<and>
               progressOf (cell g' \<lfloor>x\<rfloor> \<lfloor>y\<rfloor>) = ?q \<and>
               isDouble (progressOf (cell g' \<lfloor>x\<rfloor> \<lfloor>y\<rfloor>)) \<and>
               (0 \<le> p \<and> isDouble (progressOf ?t)
                  \<longrightarrow> progressOf ?t \<le> progressOf (cell g' \<lfloor>x\<rfloor> \<lfloor>y\<rfloor>)) \<and>
               (b \<longleftrightarrow> reached ?q (hardness ?t)) \<and>
               (dug (cell g' \<lfloor>x\<rfloor> \<lfloor>y\<rfloor>) \<longleftrightarrow> b) \<and>
               (type (cell g' \<lfloor>x\<rfloor> \<lfloor>y\<rfloor>) = (if b then Air else Dirt)) \<and>
               hardness (cell g' \<lfloor>x\<rfloor> \<lfloor>y\<rfloor>) = hardness ?t"
    by simp
next
  let ?t = "cell g \<lfloor>x\<rfloor> \<lfloor>y\<rfloor>"
  assume "isValidTile g \<lfloor>x\<rfloor> \<lfloor>y\<rfloor> \<and> \<not> dug ?t \<and> type ?t = Dirt \<and> hardness ?t = Some h"
  then show "\<exists>bs g'. digRepeat g x y ps = Inr (bs, g') \<and> length bs = length ps \<and>
               (\<forall>k<length ps. bs ! k \<longleftrightarrow>
                  h \<le> accumulated (progressOf ?t) ps k \<and>
                  (\<forall>j<k. accumulated (progressOf ?t) ps j < h)) \<and>
               (dug (cell g' \<lfloor>x\<rfloor> \<lfloor>y\<rfloor>) \<longleftrightarrow>
                  (\<exists>k<length ps. h \<le> accumulated (progressOf ?t) ps k)) \<and>
               (\<forall>k<length ps. bs ! k \<longrightarrow>
                  progressOf (cell g' \<lfloor>x\<rfloor> \<lfloor>y\<rfloor>) = accumulated (progressOf ?t) ps k) \<and>
               (ps \<noteq> [] \<and> \<not> dug (cell g' \<lfloor>x\<rfloor> \<lfloor>y\<rfloor>) \<longrightarrow>
                  progressOf (cell g' \<lfloor>x\<rfloor> \<lfloor>y\<rfloor>) =
                    accumulated (progressOf ?t) ps (length ps - 1))"
    using digRepeat_dirt [OF assms, of x y h ps] by blast
next
  let ?t = "cell g \<lfloor>x\<rfloor> \<lfloor>y\<rfloor>"
  assume "isDouble (progressOf ?t) \<and> (\<forall>q\<in>set ps. 0 \<le> q)"
  then show "\<forall>k. progressOf ?t \<le> accumulated (progressOf ?t) ps k \<and>
                 accumulated (progressOf ?t) ps k \<le> accumulated (progressOf ?t) ps (Suc k)"
    using accumulated_grows by blast
qed

theorem digTile_accumulates_witness:
  "grid_ok dirt8 \<and>
   digTile dirt8 (3/2) (1/2) tenth = Inr (False, dirt8) \<and>
   (\<exists>b g'. digTile dirt8 (1/2) (1/2) tenth = Inr (b, g') \<and> \<not> b \<and>
      progressOf (cell g' 0 0) = tenth \<and> \<not> dug (cell g' 0 0)) \<and>
   (\<exists>g'. digRepeat dirt8 (1/2) (1/2) (replicate 9 tenth) = Inr (replicate 8 False @ [True], g') \<and>
      dug (cell g' 0 0) \<and>
      progressOf (cell g' 0 0) = accumulated 0 (replicate 9 tenth) 8)"
proof -
  let ?ps = "replicate 9 tenth"
  have ok: "grid_ok dirt8" by (simp add: grid_ok_def dirt8_def)
  have f: "\<lfloor>1/2::real\<rfloor> = 0" by simp
  have v: "isValidTile dirt8 0 0" "\<not> isValidTile dirt8 \<lfloor>3/2::real\<rfloor> \<lfloor>1/2::real\<rfloor>"
    by (simp_all add: isValidTile_def dirt8_def)
  have t: "cell dirt8 0 0 =
      \<lparr>type = Dirt, dug = False, hardness = Some eightTenths, digProgress = None\<rparr>"
    by (simp add: cell_def dirt8_def)
  have p0: "progressOf (cell dirt8 0 0) = 0" by (simp add: t progressOf_def)
  have 1: "digTile dirt8 (3/2) (1/2) tenth = Inr (False, dirt8)"
    using digTile_accumulates [OF ok, of "3/2" "1/2" tenth] v by blast
  have B: "isValidTile dirt8 0 0 \<and> \<not> dug (cell dirt8 0 0) \<and> type (cell dirt8 0 0) = Dirt"
    using v t by simp
  from digTile_accumulates [OF ok, of "1/2" "1/2" tenth] B
  obtain b g1 where d: "digTile dirt8 (1/2) (1/2) tenth = Inr (b, g1)"
    and p: "progressOf (cell g1 0 0) = addDouble (progressOf (cell dirt8 0 0)) tenth"
    and b: "b \<longleftrightarrow> reached (addDouble (progressOf (cell dirt8 0 0)) tenth)
                    (hardness (cell dirt8 0 0))"
    and u: "dug (cell g1 0 0) \<longleftrightarrow> b"
    unfolding f by blast
  have s: "addDouble 0 tenth = tenth" by (simp add: tenth_def double_arith)
  from p b u have "\<not> b" "progressOf (cell g1 0 0) = tenth" "\<not> dug (cell g1 0 0)"
    unfolding p0 s by (simp_all add: t reached_def tenth_def eightTenths_def)
  with d have 2: "\<exists>b g'. digTile dirt8 (1/2) (1/2) tenth = Inr (b, g') \<and> \<not> b \<and>
      progressOf (cell g' 0 0) = tenth \<and> \<not> dug (cell g' 0 0)"
    by blast
  have C: "isValidTile dirt8 0 0 \<and> \<not> dug (cell dirt8 0 0) \<and> type (cell dirt8 0 0) = Dirt \<and>
      hardness (cell dirt8 0 0) = Some eightTenths"
    using v t by simp
  have D: "isDouble (progressOf (cell dirt8 0 0)) \<and> (\<forall>q\<in>set ?ps. 0 \<le> q)"
    by (simp add: p0 tenth_def)
  note inst = digTile_accumulates [OF ok, of "1/2" "1/2" tenth eightTenths "?ps"]
  from inst C obtain bs g' where r: "digRepeat dirt8 (1/2) (1/2) ?ps = Inr (bs, g')"
    and l: "length bs = length ?ps"
    and ix: "\<forall>k<length ?ps. bs ! k \<longleftrightarrow> eightTenths \<le> accumulated 0 ?ps k \<and>
                  (\<forall>j<k. accumulated 0 ?ps j < eightTenths)"
    and fin: "dug (cell g' 0 0) \<longleftrightarrow> (\<exists>k<length ?ps. eightTenths \<le> accumulated 0 ?ps k)"
    and at: "\<forall>k<length ?ps. bs ! k \<longrightarrow> progressOf (cell g' 0 0) = accumulated 0 ?ps k"
    unfolding f p0 by blast
  from inst D have mono: "\<forall>k. accumulated 0 ?ps k \<le> accumulated 0 ?ps (Suc k)"
    unfolding f p0 by blast
  have len: "length ?ps = 9" by simp
  have low: "accumulated 0 ?ps j < eightTenths" if "j \<le> 7" for j
  proof -
    have step: "accumulated 0 ?ps n \<le> accumulated 0 ?ps (Suc n)" for n
      using mono by (rule spec)
    have "accumulated 0 ?ps j \<le> accumulated 0 ?ps 7"
      using step that by (rule lift_Suc_mono_le)
    then show ?thesis using accumulated_tenths(1) by (rule le_less_trans)
  qed
  have n: "\<not> bs ! k" if "k < 8" for k
  proof -
    from that have "k < length ?ps" "k \<le> 7" unfolding len by simp_all
    with ix low [of k] show ?thesis by (metis not_le)
  qed
  have y: "bs ! 8"
  proof -
    have "\<forall>j<8. accumulated 0 ?ps j < eightTenths"
    proof (intro allI impI)
      fix j :: nat assume "j < 8"
      then have "j \<le> 7" by simp
      then show "accumulated 0 ?ps j < eightTenths" by (rule low)
    qed
    moreover have "8 < length ?ps" unfolding len by simp
    ultimately show ?thesis using ix accumulated_tenths(2) by blast
  qed
  have "bs = replicate 8 False @ [True]"
  proof (rule nth_equalityI)
    show "length bs = length (replicate 8 False @ [True])" using l len by simp
  next
    fix i assume "i < length bs"
    with l len have "i < 8 \<or> i = 8" by auto
    then show "bs ! i = (replicate 8 False @ [True]) ! i"
      using n y by (auto simp: nth_append)
  qed
  moreover have "8 < length ?ps" unfolding len by simp
  then have "dug (cell g' 0 0)"
    using fin accumulated_tenths(2) by blast
  moreover have "progressOf (cell g' 0 0) = accumulated 0 ?ps 8"
    using at y \<open>8 < length ?ps\<close> by blast
  ultimately show ?thesis using ok 1 2 r by blast
qed

text \<open>
  Claim C10. A call \<^verbatim>\<open>digTile(x, y, p)\<close> that returns leaves the dimensions of the grid,
  the number of rows and the length of every row as they were, and leaves every tile other
  than the one at \<open>(\<lfloor>x\<rfloor>, \<lfloor>y\<rfloor>)\<close> unchanged in all of its fields; so the tiles that it flips
  from undug to dug are at most one, whatever the power. On the grid of the game the call
  returns, and the grid stays well formed. Every cell holds a tile object of its own
  (\<^verbatim>\<open>generateWorld\<close> builds one for each cell), so a write to one cell shows in no other.
\<close>

theorem digTile_frame:
  "(\<forall>b g'. digTile g x y p = Inr (b, g') \<longrightarrow>
      worldWidth g' = worldWidth g \<and> worldHeight g' = worldHeight g \<and>
      length (tiles g') = length (tiles g) \<and>
      (\<forall>j. length (tiles g' ! j) = length (tiles g ! j)) \<and>
      (\<forall>j i. j \<noteq> nat \<lfloor>y\<rfloor> \<or> i \<noteq> nat \<lfloor>x\<rfloor> \<longrightarrow> tiles g' ! j ! i = tiles g ! j ! i) \<and>
      (\<forall>tx ty. isValidTile g tx ty \<and> (tx \<noteq> \<lfloor>x\<rfloor> \<or> ty \<noteq> \<lfloor>y\<rfloor>) \<longrightarrow> cell g' tx ty = cell g tx ty) \<and>
      card {(tx, ty). isValidTile g tx ty \<and> \<not> dug (cell g tx ty) \<and> dug (cell g' tx ty)} \<le> 1) \<and>
   (grid_ok g \<longrightarrow> (\<exists>b g'. digTile g x y p = Inr (b, g') \<and> grid_ok g'))"
proof (intro conjI allI impI)
  fix b g'
  assume d: "digTile g x y p = Inr (b, g')"
  note fr = digTile_frame_any [OF d]
  from fr show "worldWidth g' = worldWidth g" "worldHeight g' = worldHeight g"
    "length (tiles g') = length (tiles g)" by simp_all
  from fr show "length (tiles g' ! j) = length (tiles g ! j)" for j by simp
  from fr show "tiles g' ! j ! i = tiles g ! j ! i" if "j \<noteq> nat \<lfloor>y\<rfloor> \<or> i \<noteq> nat \<lfloor>x\<rfloor>" for j i
    using that by blast
  have other: "cell g' tx ty = cell g tx ty"
    if "isValidTile g tx ty \<and> (tx \<noteq> \<lfloor>x\<rfloor> \<or> ty \<noteq> \<lfloor>y\<rfloor>)" for tx ty
  proof (cases "isValidTile g \<lfloor>x\<rfloor> \<lfloor>y\<rfloor>")
    case True
    with that have "nat ty \<noteq> nat \<lfloor>y\<rfloor> \<or> nat tx \<noteq> nat \<lfloor>x\<rfloor>"
      unfolding isValidTile_def by (metis eq_nat_nat_iff)
    with fr show ?thesis by (simp add: cell_def)
  next
    case False
    with d have "g' = g" by (simp add: digTile_def)
    then show ?thesis by simp
  qed
  then show "cell g' tx ty = cell g tx ty"
    if "isValidTile g tx ty \<and> (tx \<noteq> \<lfloor>x\<rfloor> \<or> ty \<noteq> \<lfloor>y\<rfloor>)" for tx ty
    using that .
  have "(tx, ty) = (\<lfloor>x\<rfloor>, \<lfloor>y\<rfloor>)"
    if "isValidTile g tx ty" "\<not> dug (cell g tx ty)" "dug (cell g' tx ty)" for tx ty
  proof (rule ccontr)
    assume "(tx, ty) \<noteq> (\<lfloor>x\<rfloor>, \<lfloor>y\<rfloor>)"
    then have "tx \<noteq> \<lfloor>x\<rfloor> \<or> ty \<noteq> \<lfloor>y\<rfloor>" by simp
    with other that(1) have "cell g' tx ty = cell g tx ty" by blast
    with that(2,3) show False by simp
  qed
  then have "{(tx, ty). isValidTile g tx ty \<and> \<not> dug (cell g tx ty) \<and> dug (cell g' tx ty)}
          \<subseteq> {(\<lfloor>x\<rfloor>, \<lfloor>y\<rfloor>)}"
    by blast
  then have "card {(tx, ty). isValidTile g tx ty \<and> \<not> dug (cell g tx ty) \<and> dug (cell g' tx ty)}
          \<le> card {(\<lfloor>x\<rfloor>, \<lfloor>y\<rfloor>)}"
    by (intro card_mono) simp_all
  then show "card {(tx, ty). isValidTile g tx ty \<and> \<not> dug (cell g tx ty) \<and> dug (cell g' tx ty)} \<le> 1"
    by simp
next
  assume ok: "grid_ok g"
  from digTile_cases [OF ok, of x y p]
  show "\<exists>b g'. digTile g x y p = Inr (b, g') \<and> grid_ok g'"
    using ok grid_ok_setTile by auto
qed

theorem digTile_frame_witness:
  "grid_ok dirt2 \<and>
   (\<exists>b g'. digTile dirt2 (1/2) (1/2) 1 = Inr (b, g') \<and> grid_ok g' \<and>
      worldWidth g' = 2 \<and> worldHeight g' = 1 \<and> cell g' 1 0 = cell dirt2 1 0)"
proof -
  have ok: "grid_ok dirt2" by (simp add: grid_ok_def dirt2_def)
  have v: "isValidTile dirt2 1 0 \<and> (1 \<noteq> \<lfloor>1/2::real\<rfloor> \<or> 0 \<noteq> \<lfloor>1/2::real\<rfloor>)"
    by (simp add: isValidTile_def dirt2_def)
  note fr = digTile_frame [of dirt2 "1/2" "1/2" 1]
  from fr ok obtain b g' where d: "digTile dirt2 (1/2) (1/2) 1 = Inr (b, g')" and ok': "grid_ok g'"
    by blast
  from fr d have "worldWidth g' = worldWidth dirt2" "worldHeight g' = worldHeight dirt2"
    by blast+
  moreover from fr d v have "cell g' 1 0 = cell dirt2 1 0" by blast
  ultimately show ?thesis using ok d ok' by (auto simp: dirt2_def)
qed

section \<open>World generation\<close>

lemma foldE_preserves:
  assumes step: "\<And>x s. P s \<Longrightarrow> \<exists>s'. f x s = Inr s' \<and> P s'"
    and "P s"
  shows "\<exists>s'. foldE f xs s = Inr s' \<and> P s'"
  using \<open>P s\<close>
proof (induction xs arbitrary: s)
  case Nil
  then show ?case by simp
next
  case (Cons x xs)
  from step [OF Cons.prems] obtain s1 where "f x s = Inr s1" "P s1" by blast
  with Cons.IH [of s1] show ?case by simp
qed

lemma dugIsAir_setTile:
  assumes "dugIsAir g" "dug t \<longrightarrow> type t = Air"
  shows "dugIsAir (setTile g tx ty t)"
proof -
  have row: "\<forall>u\<in>set r. dug u \<longrightarrow> type u = Air" if "r \<in> set (tiles g)" for r
    using assms(1) that by (auto simp: dugIsAir_def list_all_iff)
  have "\<forall>u\<in>set r. dug u \<longrightarrow> type u = Air"
    if r: "r \<in> set ((tiles g)[nat ty := (tiles g ! nat ty)[nat tx := t]])" for r
  proof (cases "nat ty < length (tiles g)")
    case True
    then have old: "tiles g ! nat ty \<in> set (tiles g)" by simp
    from r have "r = (tiles g ! nat ty)[nat tx := t] \<or> r \<in> set (tiles g)"
      using set_update_subset_insert [of "tiles g" "nat ty"] by blast
    then show ?thesis
    proof
      assume "r = (tiles g ! nat ty)[nat tx := t]"
      then have "set r \<subseteq> insert t (set (tiles g ! nat ty))"
        using set_update_subset_insert by simp
      with row [OF old] assms(2) show ?thesis by blast
    next
      assume "r \<in> set (tiles g)"
      then show ?thesis by (rule row)
    qed
  next
    case False
    with r have "r \<in> set (tiles g)" by (simp add: list_update_beyond)
    then show ?thesis by (rule row)
  qed
  then show ?thesis by (simp add: dugIsAir_def setTile_def list_all_iff)
qed

lemma carve_sound:
  assumes "sound g" "isValidTile g tx ty"
  shows "\<exists>g'. carve g tx ty = Inr g' \<and> sound g'"
  using assms
  by (simp add: carve_def sound_def tileAt_ok grid_ok_setTile dugIsAir_setTile)

lemma carveDisk_sound: "sound g \<Longrightarrow> \<exists>g'. carveDisk x y width g = Inr g' \<and> sound g'"
  unfolding carveDisk_def
  by (intro foldE_preserves [where P = sound]) (auto simp: Let_def carve_sound)

lemma carveTunnel_sound: "sound g \<Longrightarrow> \<exists>g'. carveTunnel g x1 y1 x2 y2 width = Inr g' \<and> sound g'"
  unfolding carveTunnel_def Let_def
  by (auto intro!: foldE_preserves [where P = sound] carveDisk_sound)

lemma applyCarving_sound: "sound g \<Longrightarrow> \<exists>g'. applyCarving c g = Inr g' \<and> sound g'"
  by (cases c) (auto simp: carveTunnel_sound carve_sound)

lemma startChamber_sound: "sound g \<Longrightarrow> \<exists>g'. startChamber g = Inr g' \<and> sound g'"
  unfolding startChamber_def Let_def
  by (intro foldE_preserves [where P = sound]) (auto simp: carve_sound)

lemma initWorld_sound: "sound (initWorld w h)"
  by (auto simp: sound_def grid_ok_def dugIsAir_def initWorld_def list_all_iff initTile_def Let_def)

lemma generateWorld_sound: "\<exists>g. generateWorld w h caves = Inr g \<and> sound g"
proof -
  from foldE_preserves [where P = sound and f = applyCarving, OF applyCarving_sound initWorld_sound]
  obtain g1 where "foldE applyCarving caves (initWorld w h) = Inr g1" "sound g1" by blast
  with startChamber_sound [of g1] show ?thesis by (auto simp: generateWorld_def)
qed

lemma digTile_sound:
  assumes "sound g"
  shows "\<exists>b g'. digTile g x y p = Inr (b, g') \<and> sound g'"
proof -
  from assms have ok: "grid_ok g" and inv: "dugIsAir g" by (simp_all add: sound_def)
  have "dug (dugTile t p) \<longrightarrow> type (dugTile t p) = Air" if "\<not> dug t" for t
    using that by (simp add: dugTile_def)
  then show ?thesis
    using digTile_cases [OF ok, of x y p] assms
    by (auto simp: sound_def grid_ok_setTile dugIsAir_setTile)
qed

lemma digAll_sound: "sound g \<Longrightarrow> \<exists>g'. digAll ds g = Inr g' \<and> sound g'"
  unfolding digAll_def
proof (rule foldE_preserves [where P = sound])
  fix x :: "real \<times> real \<times> real" and s
  assume "sound s"
  obtain a b c where x: "x = (a, b, c)" by (cases x) auto
  from digTile_sound [OF \<open>sound s\<close>, of a b c]
  show "\<exists>s'. (case x of (x, y, p) \<Rightarrow> \<lambda>g. (case digTile g x y p of Inl e \<Rightarrow> Inl e | Inr (b, g') \<Rightarrow> Inr g')) s = Inr s' \<and> sound s'"
    by (auto simp: x)
qed

lemma dugIsAir_cell:
  assumes "sound g" "isValidTile g tx ty" "dug (cell g tx ty)"
  shows "type (cell g tx ty) = Air"
proof -
  from assms have r: "nat ty < length (tiles g)"
    by (auto simp: sound_def grid_ok_def isValidTile_def)
  then have m: "tiles g ! nat ty \<in> set (tiles g)" by simp
  moreover from assms have "\<forall>row\<in>set (tiles g). length row = nat (worldWidth g)"
    by (simp add: sound_def grid_ok_def list_all_iff)
  ultimately have "length (tiles g ! nat ty) = nat (worldWidth g)" by blast
  with assms have "nat tx < length (tiles g ! nat ty)"
    by (auto simp: isValidTile_def)
  then have "cell g tx ty \<in> set (tiles g ! nat ty)" by (simp add: cell_def)
  with m assms show ?thesis by (auto simp: sound_def dugIsAir_def list_all_iff)
qed

text \<open>
  Claim C2. Whatever caves the generator carves, \<^verbatim>\<open>generateWorld\<close> ends without an error in
  a well-formed grid in which every dug tile is air, and every sequence of \<^verbatim>\<open>digTile\<close>
  calls on that grid ends without an error in a grid in which, again, every dug tile is air.
\<close>

theorem dug_implies_air:
  "\<exists>g. generateWorld w h caves = Inr g \<and> grid_ok g \<and>
     (\<forall>tx ty. isValidTile g tx ty \<and> dug (cell g tx ty) \<longrightarrow> type (cell g tx ty) = Air) \<and>
     (\<forall>digs. \<exists>g'. digAll digs g = Inr g' \<and> grid_ok g' \<and>
        (\<forall>tx ty. isValidTile g' tx ty \<and> dug (cell g' tx ty) \<longrightarrow> type (cell g' tx ty) = Air))"
proof -
  from generateWorld_sound obtain g where g: "generateWorld w h caves = Inr g" "sound g"
    by blast
  have "\<exists>g'. digAll digs g = Inr g' \<and> grid_ok g' \<and>
        (\<forall>tx ty. isValidTile g' tx ty \<and> dug (cell g' tx ty) \<longrightarrow> type (cell g' tx ty) = Air)"
    for digs
  proof -
    from digAll_sound [OF g(2)] obtain g' where "digAll digs g = Inr g'" "sound g'" by blast
    then show ?thesis using dugIsAir_cell [of g'] by (auto simp: sound_def)
  qed
  with g show ?thesis using dugIsAir_cell [of g] by (auto simp: sound_def)
qed

theorem dug_implies_air_witness:
  "\<exists>g g'. generateWorld 1 12 [CaveCell 0 11] = Inr g \<and>
      dug (cell g 0 10) \<and> type (cell g 0 10) = Air \<and>
      digAll [(1/2, 11/2, 1)] g = Inr g' \<and>
      dug (cell g' 0 5) \<and> type (cell g' 0 5) = Air"
proof -
  from dug_implies_air [of 1 12 "[CaveCell 0 11]"] obtain g where
    gen: "generateWorld 1 12 [CaveCell 0 11] = Inr g"
    and inv: "\<forall>tx ty. isValidTile g tx ty \<and> dug (cell g tx ty) \<longrightarrow> type (cell g tx ty) = Air"
    and digs: "\<forall>digs. \<exists>g'. digAll digs g = Inr g' \<and> grid_ok g' \<and>
        (\<forall>tx ty. isValidTile g' tx ty \<and> dug (cell g' tx ty) \<longrightarrow> type (cell g' tx ty) = Air)"
    by blast
  from digs obtain g' where d: "digAll [(1/2, 11/2, 1)] g = Inr g'"
    and inv': "\<forall>tx ty. isValidTile g' tx ty \<and> dug (cell g' tx ty) \<longrightarrow> type (cell g' tx ty) = Air"
    by blast
  have g: "g = setTile (setTile (initWorld 1 12) 0 11 \<lparr>type = Air, dug = True, hardness = Some (23/24), digProgress = None\<rparr>)
                 0 10 \<lparr>type = Air, dug = True, hardness = Some (11/12), digProgress = None\<rparr>"
    using gen
    by (simp add: generateWorld_def startChamber_def initWorld_def initTile_def Let_def carve_def
        tileAt_def setTile_def isValidTile_def upto_rec1 upt_conv_Cons)
  have 1: "isValidTile g 0 10" "dug (cell g 0 10)"
    unfolding g by (simp_all add: isValidTile_def initWorld_def setTile_def cell_def upt_conv_Cons)
  have 2: "isValidTile g' 0 5" "dug (cell g' 0 5)"
    using d unfolding g
    by (auto simp add: digAll_def digTile_def initWorld_def initTile_def Let_def
        tileAt_def setTile_def isValidTile_def cell_def progressOf_def reached_def upt_conv_Cons
        double_arith)
  from inv 1 have "type (cell g 0 10) = Air" by blast
  moreover from inv' 2 have "type (cell g' 0 5) = Air" by blast
  ultimately show ?thesis using gen d 1 2 by blast
qed

lemma cell_initWorld:
  assumes "isValidTile (initWorld w h) tx ty"
  shows "cell (initWorld w h) tx ty = initTile h ty"
proof -
  from assms have "0 \<le> tx" "tx < w" "0 \<le> ty" "ty < h"
    by (simp_all add: isValidTile_def initWorld_def)
  then have "nat ty < nat h" "nat tx < nat w" "int (nat ty) = ty" by simp_all
  then show ?thesis by (simp add: cell_def initWorld_def)
qed

text \<open>
  Claim C9, as stated, fails at the top of the underground: in the world of the game, 400
  wide and 300 high, the tiles of row 5 start with hardness \<open>61/120\<close>, not \<open>1/2\<close>.
\<close>

theorem top_row_hardness_counterexample:
  "hardness (cell (initWorld 400 300) 0 5) = Some (61/120) \<and>
   hardness (cell (initWorld 400 300) 0 5) \<noteq> Some (1/2)"
proof -
  have "isValidTile (initWorld 400 300) 0 5" by (simp add: isValidTile_def initWorld_def)
  then have "cell (initWorld 400 300) 0 5 = initTile 300 5" by (rule cell_initWorld)
  then show ?thesis by (simp add: initTile_def)
qed

text \<open>
  Claim C9, amended. After the initialisation loop of \<^verbatim>\<open>generateWorld\<close>, every cell of a
  row with index at least 5 is undug dirt with hardness exactly \<open>0.5 + 0.5 * (row / height)\<close>
  and no dig progress; this hardness lies strictly between \<open>0.5\<close> and \<open>1\<close> and grows
  strictly with the row index. Every cell of a row with index below 5 is air, and dug.
\<close>

theorem initial_hardness:
  assumes "isValidTile (initWorld w h) tx ty"
  shows
    "(ty < 5 \<longrightarrow>
        cell (initWorld w h) tx ty =
          \<lparr>type = Air, dug = True, hardness = None, digProgress = None\<rparr>) \<and>
     (5 \<le> ty \<longrightarrow>
        cell (initWorld w h) tx ty =
          \<lparr>type = Dirt, dug = False,
           hardness = Some (0.5 + 0.5 * (real_of_int ty / real_of_int h)),
           digProgress = None\<rparr> \<and>
        0.5 < 0.5 + 0.5 * (real_of_int ty / real_of_int h) \<and>
        0.5 + 0.5 * (real_of_int ty / real_of_int h) < 1) \<and>
     (\<forall>tx' ty'. isValidTile (initWorld w h) tx' ty' \<and> 5 \<le> ty \<and> ty < ty' \<longrightarrow>
        (\<exists>a b. hardness (cell (initWorld w h) tx ty) = Some a \<and>
               hardness (cell (initWorld w h) tx' ty') = Some b \<and> a < b))"
proof -
  from assms have r: "0 \<le> ty" "ty < h" by (simp_all add: isValidTile_def initWorld_def)
  then have h: "0 < real_of_int h" by simp
  note c = cell_initWorld [OF assms]
  have 1: "ty < 5 \<longrightarrow> cell (initWorld w h) tx ty =
          \<lparr>type = Air, dug = True, hardness = None, digProgress = None\<rparr>"
    by (simp add: c initTile_def)
  have 2: "cell (initWorld w h) tx ty =
          \<lparr>type = Dirt, dug = False,
           hardness = Some (0.5 + 0.5 * (real_of_int ty / real_of_int h)),
           digProgress = None\<rparr> \<and>
        0.5 < 0.5 + 0.5 * (real_of_int ty / real_of_int h) \<and>
        0.5 + 0.5 * (real_of_int ty / real_of_int h) < 1" if "5 \<le> ty"
  proof -
    from that have "0 < real_of_int ty" by simp
    with h have "0 < real_of_int ty / real_of_int h" by simp
    moreover from r h have "real_of_int ty / real_of_int h < 1" by simp
    ultimately show ?thesis using that by (simp add: c initTile_def)
  qed
  have 3: "\<exists>a b. hardness (cell (initWorld w h) tx ty) = Some a \<and>
               hardness (cell (initWorld w h) tx' ty') = Some b \<and> a < b"
    if "isValidTile (initWorld w h) tx' ty' \<and> 5 \<le> ty \<and> ty < ty'" for tx' ty'
  proof -
    from that have c': "cell (initWorld w h) tx' ty' = initTile h ty'"
      by (simp add: cell_initWorld)
    from that h have "real_of_int ty / real_of_int h < real_of_int ty' / real_of_int h"
      by (simp add: divide_strict_right_mono)
    with that show ?thesis by (simp add: c c' initTile_def)
  qed
  from 1 2 3 show ?thesis by blast
qed

theorem initial_hardness_witness:
  "isValidTile (initWorld 400 300) 7 150 \<and>
   cell (initWorld 400 300) 7 150 =
     \<lparr>type = Dirt, dug = False, hardness = Some (3/4), digProgress = None\<rparr> \<and>
   isValidTile (initWorld 400 300) 7 3 \<and>
   cell (initWorld 400 300) 7 3 =
     \<lparr>type = Air, dug = True, hardness = None, digProgress = None\<rparr> \<and>
   (\<exists>a b. hardness (cell (initWorld 400 300) 7 150) = Some a \<and>
          hardness (cell (initWorld 400 300) 9 299) = Some b \<and> a < b)"
proof -
  have v: "isValidTile (initWorld 400 300) 7 150" "isValidTile (initWorld 400 300) 7 3"
    "isValidTile (initWorld 400 300) 9 299"
    by (simp_all add: isValidTile_def initWorld_def)
  note ih = initial_hardness [OF v(1)]
  from ih have a: "cell (initWorld 400 300) 7 150 =
      \<lparr>type = Dirt, dug = False, hardness = Some (3/4), digProgress = None\<rparr>"
    by simp
  from ih have m: "\<forall>tx' ty'. isValidTile (initWorld 400 300) tx' ty' \<and> (5::int) \<le> 150 \<and> 150 < ty' \<longrightarrow>
        (\<exists>a b. hardness (cell (initWorld 400 300) 7 150) = Some a \<and>
               hardness (cell (initWorld 400 300) tx' ty') = Some b \<and> a < b)"
    by blast
  from initial_hardness [OF v(2)] have
    b: "cell (initWorld 400 300) 7 3 = \<lparr>type = Air, dug = True, hardness = None, digProgress = None\<rparr>"
    by simp
  have "isValidTile (initWorld 400 300) 9 299 \<and> (5::int) \<le> 150 \<and> (150::int) < 299"
    using v(3) by simp
  with m have c: "\<exists>a b. hardness (cell (initWorld 400 300) 7 150) = Some a \<and>
          hardness (cell (initWorld 400 300) 9 299) = Some b \<and> a < b"
    by blast
  from a b c v show ?thesis by blast
qed

section \<open>Ants: damage and death\<close>






section \<open>Food: pickup and delivery\<close>




lemma workerAt_foodSources [simp]:
  "workerAt (g\<lparr>foodSources := fs\<rparr>) ci wi = workerAt g ci wi"
  by (simp add: workerAt_def)




lemma food_setWorker [simp]:
  "cj < length (colonies g) \<Longrightarrow> food (colonies (setWorker g ci wi w) ! cj) = food (colonies g ! cj)"
  by (cases "cj = ci") (simp_all add: setWorker_def)

lemma foodSources_setWorker [simp]: "foodSources (setWorker g ci wi w) = foodSources g"
  by (simp add: setWorker_def)










section \<open>The queen spawns workers\<close>

lemma canMove_ok:
  assumes "grid_ok g"
  shows "canMove g x y =
           Inr (isValidTile g \<lfloor>x\<rfloor> \<lfloor>y\<rfloor> \<and> (dug (cell g \<lfloor>x\<rfloor> \<lfloor>y\<rfloor>) \<or> type (cell g \<lfloor>x\<rfloor> \<lfloor>y\<rfloor>) = Air))"
  using tileAt_ok [OF assms] by (auto simp: canMove_def getTile_def Let_def)








section \<open>Path finding\<close>

lemma canMove_floor: "canMove g (real_of_int \<lfloor>x\<rfloor>) (real_of_int \<lfloor>y\<rfloor>) = canMove g x y"
  by (simp add: canMove_def getTile_def)

lemma relax_ok:
  assumes "grid_ok g"
  shows "\<exists>s'. relax g goal current rest s = Inr s'"
proof (induction rest arbitrary: s)
  case Nil
  show ?case by simp
next
  case (Cons n rest)
  from canMove_ok [OF assms] obtain b where
    "canMove g (real_of_int (fst n)) (real_of_int (snd n)) = Inr b" by blast
  with Cons show ?case by (cases b) (simp_all add: Let_def)
qed

lemma relax_zero:
  assumes "grid_ok g" "orInfinity (gScore s current) = Infinity"
  shows "relax g goal current rest s = Inr s"
proof (induction rest)
  case Nil
  show ?case by simp
next
  case (Cons n rest)
  from canMove_ok [OF assms(1)] obtain b where
    "canMove g (real_of_int (fst n)) (real_of_int (snd n)) = Inr b" by blast
  with Cons assms(2) show ?case by (cases b) (simp_all add: Let_def)
qed

lemma astar_never_throws: "grid_ok g \<Longrightarrow> astar g goal iterations s \<noteq> Throws e"
proof (induction g goal iterations s rule: astar.induct)
  case (1 g goal iterations s)
  note ok = \<open>grid_ok g\<close>
  show ?case
  proof (cases "openSet s \<noteq> [] \<and> iterations < 500")
    case False
    then show ?thesis by (subst astar.simps) auto
  next
    case True
    obtain current currentIdx where l:
      "lowest (fScore s) (tl (openSet s)) (hd (openSet s), 0) 1 = (current, currentIdx)"
      by (cases "lowest (fScore s) (tl (openSet s)) (hd (openSet s), 0) 1")
    show ?thesis
    proof (cases "current = goal")
      case g: True
      with True l show ?thesis
        by (subst astar.simps) (simp split: option.splits)
    next
      case ng: False
      from relax_ok [OF ok] obtain s' where r:
        "relax g goal current (neighbors current)
           (s\<lparr>openSet := take currentIdx (openSet s) @ drop (Suc currentIdx) (openSet s)\<rparr>) = Inr s'"
        by blast
      from "1.IH" [OF True l [symmetric] ng r ok]
      have "astar g goal (Suc iterations) s' \<noteq> Throws e" .
      with True l ng r show ?thesis by (subst astar.simps) simp
    qed
  qed
qed

lemma astar_capped: "500 \<le> iterations \<Longrightarrow> astar g goal iterations s = Returns None"
  by (subst astar.simps) simp

lemma walkBack_root: "cf current = None \<Longrightarrow> walkBack cf current waypoints = Some waypoints"
  by (subst walkBack.simps) simp


text \<open>The first round of the search from the start tile, and the second.\<close>

lemma astar_from_start:
  assumes "grid_ok g"
  shows "astar g goal 0
           \<lparr>openSet = [start], cameFrom = Map.empty, gScore = [start \<mapsto> Finite 0],
            fScore = [start \<mapsto> f]\<rparr> =
         (if start = goal then Returns (Some [center start]) else Returns None)"
proof (cases "start = goal")
  case True
  then show ?thesis
    by (subst astar.simps) (simp add: reconstructPath_def walkBack_root)
next
  case False
  let ?s = "\<lparr>openSet = [], cameFrom = Map.empty, gScore = [start \<mapsto> Finite 0],
             fScore = [start \<mapsto> f]\<rparr>"
  have "relax g goal start (neighbors start) ?s = Inr ?s"
    by (rule relax_zero [OF assms]) simp
  moreover have "astar g goal (Suc 0) ?s = Returns None"
    by (subst astar.simps) simp
  ultimately show ?thesis using False
    by (subst astar.simps) simp
qed

lemma findPath_outcome:
  assumes "grid_ok g"
  shows "findPath g startX startY endX endY =
           (if free g (startX, startY) \<and> free g (endX, endY) \<and>
               (\<lfloor>startX\<rfloor>, \<lfloor>startY\<rfloor>) = (\<lfloor>endX\<rfloor>, \<lfloor>endY\<rfloor>)
            then Returns (Some [center (\<lfloor>startX\<rfloor>, \<lfloor>startY\<rfloor>)])
            else Returns None)"
proof -
  from canMove_ok [OF assms] obtain b1 b2 where
    b: "canMove g startX startY = Inr b1" "canMove g endX endY = Inr b2" by blast
  show ?thesis
    using b astar_from_start [OF assms, of "(\<lfloor>endX\<rfloor>, \<lfloor>endY\<rfloor>)" "(\<lfloor>startX\<rfloor>, \<lfloor>startY\<rfloor>)"]
    by (cases b1; cases b2) (auto simp: findPath_def Let_def canMove_floor free_def)
qed





lemma grid_ok_open5: "grid_ok open5"
  by (simp add: grid_ok_def open5_def list_all_iff)

lemma free_open5: "free open5 (x, y) \<longleftrightarrow> isValidTile open5 \<lfloor>x\<rfloor> \<lfloor>y\<rfloor>"
proof -
  have "dug (cell open5 tx ty)" if "isValidTile open5 tx ty" for tx ty
  proof -
    from that have "nat ty < 5" "nat tx < 5" by (auto simp: isValidTile_def open5_def)
    then show ?thesis by (simp add: cell_def open5_def)
  qed
  then show ?thesis using canMove_ok [OF grid_ok_open5] by (auto simp: free_def)
qed

lemma valid_open5: "isValidTile open5 tx ty \<longleftrightarrow> 0 \<le> tx \<and> tx < 5 \<and> 0 \<le> ty \<and> ty < 5"
  by (simp add: isValidTile_def open5_def)





text \<open>
  Claim C6. On the grid of the game \<^verbatim>\<open>findPath\<close> never throws and always returns. When
  the tile of either endpoint is not passable it returns \<^verbatim>\<open>null\<close>, whatever the search
  would find. The search loop returns \<^verbatim>\<open>null\<close> from any state as soon as 500 rounds have
  been begun, and it never throws.
\<close>

theorem findPath_null:
  assumes "grid_ok g"
  shows "(\<not> free g (startX, startY) \<or> \<not> free g (endX, endY) \<longrightarrow>
            findPath g startX startY endX endY = Returns None) \<and>
         findPath g startX startY endX endY \<noteq> Diverges \<and>
         (\<forall>e. findPath g startX startY endX endY \<noteq> Throws e) \<and>
         (\<forall>goal iterations s. 500 \<le> iterations \<longrightarrow> astar g goal iterations s = Returns None) \<and>
         (\<forall>goal iterations s e. astar g goal iterations s \<noteq> Throws e)"
  using findPath_outcome [OF assms, of startX startY endX endY] astar_capped
    astar_never_throws [OF assms]
  by auto

theorem findPath_null_witness:
  "grid_ok dirt1 \<and> \<not> free dirt1 (1/2, 1/2) \<and>
   findPath dirt1 (1/2) (1/2) (1/2) (1/2) = Returns None \<and>
   grid_ok open5 \<and> \<not> free open5 (7, 7) \<and> findPath open5 0 0 7 7 = Returns None"
proof -
  have ok: "grid_ok dirt1" by (simp add: grid_ok_def dirt1_def)
  have nf: "\<not> free dirt1 (1/2, 1/2)"
    by (simp add: free_def canMove_def getTile_def tileAt_def isValidTile_def dirt1_def)
  have nf5: "\<not> free open5 (7, 7)" by (simp add: free_open5 valid_open5)
  from findPath_null [OF ok, of "1/2" "1/2" "1/2" "1/2"] nf
  have 1: "findPath dirt1 (1/2) (1/2) (1/2) (1/2) = Returns None" by blast
  from findPath_null [OF grid_ok_open5, of 0 0 7 7] nf5
  have 2: "findPath open5 0 0 7 7 = Returns None" by blast
  from ok nf 1 grid_ok_open5 nf5 2 show ?thesis by blast
qed

section \<open>Combat\<close>












lemma takeDamage_more: "ant.more (fst (takeDamage dmg gm a)) = ant.more a"
  by (simp add: takeDamage_def Let_def)


















end
